theory Spec2Isabelle
  imports Main "HOL-Library.Word" "HOL-Library.Sublist"
begin

unbundle bit_operations_syntax

section \<open>The device channel of iMobileDeviceConnection\<close>

text \<open>
  The functions \<^verbatim>\<open>ReadDirectory\<close>, \<^verbatim>\<open>GetFileInfo\<close>, \<^verbatim>\<open>Exists\<close> and
  \<^verbatim>\<open>GetUnusedFilename\<close> of \<^verbatim>\<open>iMobileDeviceConnection\<close> talk to the device through two
  calls of libimobiledevice, \<^verbatim>\<open>afc_read_directory\<close> and \<^verbatim>\<open>afc_get_file_info\<close>, and
  draw numbers from the global generator \<^verbatim>\<open>qrand()\<close>.

  A \<^verbatim>\<open>QString\<close> that is only compared or converted with \<^verbatim>\<open>toUtf8()\<close> is a \<open>string\<close>
  (the null and the empty \<^verbatim>\<open>QString\<close> are equal under \<^verbatim>\<open>==\<close> and have the same UTF-8
  bytes); a \<^verbatim>\<open>QString\<close> whose \<^verbatim>\<open>isNull()\<close> is read is a \<open>string option\<close>, \<open>None\<close>
  being the null string. \<^verbatim>\<open>QString::fromUtf8\<close> of a C string is never null, and is
  taken as the identity on the names the device sends.
\<close>

type_synonym QString = "string option"

type_synonym afc_error_t = int

definition AFC_E_SUCCESS :: afc_error_t where
  "AFC_E_SUCCESS = 0"

text \<open>
  What the program does to the outside, in the order it does it: every call of the two
  AFC functions with its path, every call of \<^verbatim>\<open>qrand()\<close>, and the two warnings of
  \<^verbatim>\<open>GetUnusedFilename\<close> (that no music directory was found, and that the chosen music directory does not
  exist, with the directory).
\<close>

datatype event =
    Afc_read_directory string
  | Afc_get_file_info string
  | QRand
  | QWarning_no_music_directories
  | QWarning_music_directory_missing string

text \<open>
  The device is a state machine over an arbitrary state \<open>'d\<close>: each AFC call returns the
  error code and the \<^verbatim>\<open>char**\<close> out-parameter (\<open>None\<close> is \<^verbatim>\<open>NULL\<close>, otherwise the
  strings before the terminating \<^verbatim>\<open>NULL\<close>), and the next state of the device. A device
  that other parties modify between two calls is one whose state changes. The numbers
  that successive calls of \<^verbatim>\<open>qrand()\<close> return are the sequence \<open>rand\<close>; \<^verbatim>\<open>qrand()\<close>
  returns a value between 0 and \<^verbatim>\<open>RAND_MAX\<close>, so they are naturals.
\<close>

record 'd env =
  afc_read_directory :: "'d \<Rightarrow> string \<Rightarrow> (afc_error_t \<times> string list option) \<times> 'd"
  afc_get_file_info :: "'d \<Rightarrow> string \<Rightarrow> (afc_error_t \<times> string list option) \<times> 'd"
  rand :: "nat \<Rightarrow> nat"

record 'd world =
  device :: 'd
  nrand :: nat
  trace :: "event list"

definition call_afc_read_directory ::
  "'d env \<Rightarrow> string \<Rightarrow> 'd world \<Rightarrow> (afc_error_t \<times> string list option) \<times> 'd world" where
  "call_afc_read_directory e path w =
     (fst (afc_read_directory e (device w) path),
      w\<lparr>device := snd (afc_read_directory e (device w) path),
        trace := trace w @ [Afc_read_directory path]\<rparr>)"

definition call_afc_get_file_info ::
  "'d env \<Rightarrow> string \<Rightarrow> 'd world \<Rightarrow> (afc_error_t \<times> string list option) \<times> 'd world" where
  "call_afc_get_file_info e path w =
     (fst (afc_get_file_info e (device w) path),
      w\<lparr>device := snd (afc_get_file_info e (device w) path),
        trace := trace w @ [Afc_get_file_info path]\<rparr>)"

definition qrand :: "'d env \<Rightarrow> 'd world \<Rightarrow> int \<times> 'd world" where
  "qrand e w = (int (rand e (nrand w)), w\<lparr>nrand := Suc (nrand w), trace := trace w @ [QRand]\<rparr>)"

definition qWarning :: "event \<Rightarrow> 'd world \<Rightarrow> 'd world" where
  "qWarning ev w = w\<lparr>trace := trace w @ [ev]\<rparr>"

section \<open>QDir::Filters\<close>

text \<open>
  \<^verbatim>\<open>QDir::Filters\<close> is a \<^verbatim>\<open>QFlags\<close> over an \<^verbatim>\<open>int\<close>. The values are those of Qt 4's
  \<^verbatim>\<open>qdir.h\<close>, which is not part of the repository; \<^verbatim>\<open>QDir::NoFilter\<close> is \<open>-1\<close>, every
  bit set. \<^verbatim>\<open>filters & QDir::X\<close> in a condition is true when the conjunction is not zero.
\<close>

type_synonym QDir_Filters = "32 word"

definition QDir_Dirs :: QDir_Filters where "QDir_Dirs = 0x001"
definition QDir_Files :: QDir_Filters where "QDir_Files = 0x002"
definition QDir_NoSymLinks :: QDir_Filters where "QDir_NoSymLinks = 0x008"
definition QDir_Hidden :: QDir_Filters where "QDir_Hidden = 0x100"
definition QDir_NoDotAndDotDot :: QDir_Filters where "QDir_NoDotAndDotDot = 0x1000"
definition QDir_NoFilter :: QDir_Filters where "QDir_NoFilter = - 1"

definition has_flag :: "QDir_Filters \<Rightarrow> QDir_Filters \<Rightarrow> bool" where
  "has_flag filters flag = (filters AND flag \<noteq> 0)"

section \<open>GetFileInfo and Exists\<close>

text \<open>
  The loop of \<^verbatim>\<open>GetFileInfo\<close> over \<^verbatim>\<open>infolist\<close>: the strings are alternately a key and
  its value; \<open>last_key\<close> is null when the next string is a key.
\<close>

fun GetFileInfo_loop :: "string \<Rightarrow> string list \<Rightarrow> QString \<Rightarrow> QString \<Rightarrow> QString" where
  "GetFileInfo_loop key [] last_key ret = ret"
| "GetFileInfo_loop key (p # ps) last_key ret =
     (case last_key of
        None \<Rightarrow> GetFileInfo_loop key ps (Some p) ret
      | Some k \<Rightarrow> GetFileInfo_loop key ps None (if k = key then Some p else ret))"

definition GetFileInfo :: "'d env \<Rightarrow> string \<Rightarrow> string \<Rightarrow> 'd world \<Rightarrow> QString \<times> 'd world" where
  "GetFileInfo e path key w =
     (case call_afc_get_file_info e path w of
        ((err, infolist), w') \<Rightarrow>
          if err \<noteq> AFC_E_SUCCESS \<or> infolist = None then (None, w')
          else (GetFileInfo_loop key (the infolist) None None, w'))"

definition Exists :: "'d env \<Rightarrow> string \<Rightarrow> 'd world \<Rightarrow> bool \<times> 'd world" where
  "Exists e path w =
     (case GetFileInfo e path ''st_ifmt'' w of (ret, w') \<Rightarrow> (ret \<noteq> None, w'))"

section \<open>ReadDirectory\<close>

definition startsWith :: "string \<Rightarrow> string \<Rightarrow> bool" where
  "startsWith s t = (take (length t) s = t)"

text \<open>The loop of \<^verbatim>\<open>ReadDirectory\<close> over the names of \<^verbatim>\<open>list\<close>; \<open>ret << filename\<close> appends.\<close>

fun ReadDirectory_loop ::
  "'d env \<Rightarrow> string \<Rightarrow> QDir_Filters \<Rightarrow> string list \<Rightarrow> string list \<Rightarrow> 'd world
    \<Rightarrow> string list \<times> 'd world" where
  "ReadDirectory_loop e path filters [] ret w = (ret, w)"
| "ReadDirectory_loop e path filters (filename # ps) ret w =
     (if filters = QDir_NoFilter then
        ReadDirectory_loop e path filters ps (ret @ [filename]) w
      else if has_flag filters QDir_NoDotAndDotDot \<and> (filename = ''.'' \<or> filename = ''..'') then
        ReadDirectory_loop e path filters ps ret w
      else if \<not> has_flag filters QDir_Hidden \<and> startsWith filename ''.'' then
        ReadDirectory_loop e path filters ps ret w
      else
        (case GetFileInfo e (path @ ''/'' @ filename) ''st_ifmt'' w of
           (filetype, w') \<Rightarrow>
             if (filetype = Some ''S_IFREG'' \<and> has_flag filters QDir_Files) \<or>
                (filetype = Some ''S_IFDIR'' \<and> has_flag filters QDir_Dirs) \<or>
                (filetype = Some ''S_IFLNK'' \<and> \<not> has_flag filters QDir_NoSymLinks)
             then ReadDirectory_loop e path filters ps (ret @ [filename]) w'
             else ReadDirectory_loop e path filters ps ret w'))"

definition ReadDirectory ::
  "'d env \<Rightarrow> string \<Rightarrow> QDir_Filters \<Rightarrow> 'd world \<Rightarrow> string list \<times> 'd world" where
  "ReadDirectory e path filters w =
     (case call_afc_read_directory e path w of
        ((err, list), w') \<Rightarrow>
          if err \<noteq> AFC_E_SUCCESS \<or> list = None then ([], w')
          else ReadDirectory_loop e path filters (the list) [] w')"

section \<open>GetUnusedFilename\<close>

text \<open>
  \<^verbatim>\<open>QString::sprintf\<close> with \<^verbatim>\<open>%02d\<close> and \<^verbatim>\<open>%06d\<close>: the decimal digits of the number,
  padded with zeros on the left to the width, the sign first when it is negative.
\<close>

fun decimal :: "nat \<Rightarrow> string" where
  "decimal n =
     (if n < 10 then [''0123456789'' ! n]
      else decimal (n div 10) @ [''0123456789'' ! (n mod 10)])"

declare decimal.simps [simp del]

definition zero_pad :: "nat \<Rightarrow> string \<Rightarrow> string" where
  "zero_pad width s = replicate (width - length s) (CHR ''0'') @ s"

definition sprintf_0d :: "nat \<Rightarrow> int \<Rightarrow> string" where
  "sprintf_0d width n =
     (if n < 0 then ''-'' @ zero_pad (width - 1) (decimal (nat (- n)))
      else zero_pad width (decimal (nat n)))"

definition music_dir :: "int \<Rightarrow> string" where
  "music_dir n = ''/iTunes_Control/Music/F'' @ sprintf_0d 2 n"

text \<open>
  \<^verbatim>\<open>total_musicdirs\<close> is a C \<^verbatim>\<open>int\<close>: \<^verbatim>\<open>++total_musicdirs\<close> at \<^verbatim>\<open>INT_MAX\<close> is written
  out as the wrap-around to \<^verbatim>\<open>INT_MIN\<close>. The loop has no bound of its own: it ends at
  the first directory that \<^verbatim>\<open>Exists\<close> reports absent, and \<open>None\<close> is the run that never
  ends.
\<close>

definition incr_int32 :: "int \<Rightarrow> int" where
  "incr_int32 n = (if n = 2147483647 then - 2147483648 else n + 1)"

partial_function (option) count_musicdirs ::
  "'d env \<Rightarrow> int \<Rightarrow> 'd world \<Rightarrow> (int \<times> 'd world) option" where
  "count_musicdirs e total_musicdirs w =
     (case Exists e (music_dir total_musicdirs) w of
        (found, w') \<Rightarrow>
          if \<not> found then Some (total_musicdirs, w')
          else count_musicdirs e (incr_int32 total_musicdirs) w')"

text \<open>
  \<^verbatim>\<open>metadata.filename().section('.', -1, -1).toLower()\<close>: the last of the sections that
  \<^verbatim>\<open>'.'\<close> separates (the whole string when it has no \<^verbatim>\<open>'.'\<close>), in lower case. The class
  \<^verbatim>\<open>Song\<close> is not part of the source; only its \<^verbatim>\<open>filename()\<close> is read. \<^verbatim>\<open>toLower\<close> is
  modelled on the ASCII letters.
\<close>

record Song =
  Song_filename :: string

definition section_last :: "char \<Rightarrow> string \<Rightarrow> string" where
  "section_last sep s = rev (takeWhile (\<lambda>c. c \<noteq> sep) (rev s))"

definition char_toLower :: "char \<Rightarrow> char" where
  "char_toLower c =
     (case map_of (zip ''ABCDEFGHIJKLMNOPQRSTUVWXYZ'' ''abcdefghijklmnopqrstuvwxyz'') c of
        None \<Rightarrow> c
      | Some l \<Rightarrow> l)"

definition toLower :: "string \<Rightarrow> string" where
  "toLower s = map char_toLower s"

definition kRandMax :: int where
  "kRandMax = 999999"

text \<open>
  The \<^verbatim>\<open>forever\<close> loop: a name \<^verbatim>\<open>libgpod\<close> followed by six digits and the extension, drawn
  again until \<^verbatim>\<open>Exists\<close> reports it absent. \<open>None\<close> is the run that never ends.
\<close>

partial_function (option) unused_filename_loop ::
  "'d env \<Rightarrow> string \<Rightarrow> string \<Rightarrow> 'd world \<Rightarrow> (string \<times> 'd world) option" where
  "unused_filename_loop e dir extension w =
     (case qrand e w of
        (r, w1) \<Rightarrow>
          (case Exists e (dir @ ''/'' @ (''libgpod'' @ sprintf_0d 6 (r mod kRandMax) @ ''.'' @ extension)) w1 of
             (found, w2) \<Rightarrow>
               if \<not> found
               then Some (''libgpod'' @ sprintf_0d 6 (r mod kRandMax) @ ''.'' @ extension, w2)
               else unused_filename_loop e dir extension w2))"

declare count_musicdirs.simps [code] unused_filename_loop.simps [code]

text \<open>
  \<^verbatim>\<open>qrand() % total_musicdirs\<close> and the choice of the extension, the two expressions of
  \<^verbatim>\<open>GetUnusedFilename\<close> between its loops; both operands of \<^verbatim>\<open>%\<close> are non-negative
  where it is evaluated, so it is \<open>mod\<close>.
\<close>

definition pick_dir_num :: "int \<Rightarrow> int \<Rightarrow> int" where
  "pick_dir_num r total_musicdirs = r mod total_musicdirs"

definition file_extension :: "Song \<Rightarrow> string" where
  "file_extension metadata =
     (let extension = toLower (section_last (CHR ''.'') (Song_filename metadata))
      in if extension = [] then ''mp3'' else extension)"

text \<open>
  \<^verbatim>\<open>GetUnusedFilename\<close> returns the null \<^verbatim>\<open>QString\<close> after either warning, and the path
  otherwise. Its \<^verbatim>\<open>itdb\<close> argument is never read.
\<close>

definition GetUnusedFilename ::
  "'d env \<Rightarrow> Song \<Rightarrow> 'd world \<Rightarrow> (QString \<times> 'd world) option" where
  "GetUnusedFilename e metadata w =
     (case count_musicdirs e 0 w of
        None \<Rightarrow> None
      | Some (total_musicdirs, w1) \<Rightarrow>
          if total_musicdirs \<le> 0 then Some (None, qWarning QWarning_no_music_directories w1)
          else
            (case qrand e w1 of
               (r, w2) \<Rightarrow>
                 (case Exists e (music_dir (pick_dir_num r total_musicdirs)) w2 of
                    (found, w3) \<Rightarrow>
                      if \<not> found then
                        Some (None,
                          qWarning (QWarning_music_directory_missing
                            (music_dir (pick_dir_num r total_musicdirs))) w3)
                      else
                        (case unused_filename_loop e (music_dir (pick_dir_num r total_musicdirs))
                                (file_extension metadata) w3 of
                           None \<Rightarrow> None
                         | Some (filename, w4) \<Rightarrow>
                             Some (Some (music_dir (pick_dir_num r total_musicdirs) @ ''/'' @ filename),
                                   w4)))))"

section \<open>The vocabulary of the specification\<close>

text \<open>
  The value \<^verbatim>\<open>GetFileInfo\<close> returns for a path and a key when the device is in state
  \<open>d\<close>: the direct metadata query.
\<close>

definition file_info :: "'d env \<Rightarrow> 'd \<Rightarrow> string \<Rightarrow> string \<Rightarrow> QString" where
  "file_info e d path key =
     (case fst (afc_get_file_info e d path) of
        (err, infolist) \<Rightarrow>
          if err \<noteq> AFC_E_SUCCESS \<or> infolist = None then None
          else GetFileInfo_loop key (the infolist) None None)"

text \<open>
  A key/value list contains a value for a key when the key stands at an even position
  and a string follows it.
\<close>

fun has_value :: "string \<Rightarrow> string list \<Rightarrow> bool" where
  "has_value key (k # v # rest) = (k = key \<or> has_value key rest)"
| "has_value key [] = False"
| "has_value key [k] = False"

text \<open>
  The file-type query of an entry fails or yields no \<^verbatim>\<open>st_ifmt\<close> value: the reply of
  \<^verbatim>\<open>afc_get_file_info\<close> is an error, a null list, or a list without a value for the key.
\<close>

definition no_file_type :: "afc_error_t \<times> string list option \<Rightarrow> bool" where
  "no_file_type r =
     (fst r \<noteq> AFC_E_SUCCESS \<or> snd r = None \<or> \<not> has_value ''st_ifmt'' (the (snd r)))"

text \<open>
  The entry kinds and the listing filter of the specification. \<open>classify\<close> reads the three
  type tokens that \<^verbatim>\<open>ReadDirectory\<close> compares with; anything else, the null string
  included, is \<open>Unknown\<close>.
\<close>

datatype kind = File | Directory | Symlink | Unknown

record ListingFilter =
  includeHidden :: bool
  includeDotEntries :: bool
  kindMask :: "kind set"

definition classify :: "QString \<Rightarrow> kind" where
  "classify filetype =
     (if filetype = Some ''S_IFREG'' then File
      else if filetype = Some ''S_IFDIR'' then Directory
      else if filetype = Some ''S_IFLNK'' then Symlink
      else Unknown)"

text \<open>
  The filter that a value of \<^verbatim>\<open>QDir::Filters\<close> stands for: hidden entries are included
  with \<^verbatim>\<open>Hidden\<close>, dot entries unless \<^verbatim>\<open>NoDotAndDotDot\<close>, files with \<^verbatim>\<open>Files\<close>,
  directories with \<^verbatim>\<open>Dirs\<close>, and symbolic links unless \<^verbatim>\<open>NoSymLinks\<close>. So the kind
  mask of \<^verbatim>\<open>QDir::Dirs\<close> alone is \<open>{Directory, Symlink}\<close>, and the kind mask is
  \<open>{Directory}\<close> when \<^verbatim>\<open>Dirs\<close> and \<^verbatim>\<open>NoSymLinks\<close> are set and \<^verbatim>\<open>Files\<close> is not.
\<close>

definition ListingFilter_of :: "QDir_Filters \<Rightarrow> ListingFilter" where
  "ListingFilter_of filters =
     \<lparr>includeHidden = has_flag filters QDir_Hidden,
      includeDotEntries = (\<not> has_flag filters QDir_NoDotAndDotDot),
      kindMask = (if has_flag filters QDir_Files then {File} else {}) \<union>
                 (if has_flag filters QDir_Dirs then {Directory} else {}) \<union>
                 (if has_flag filters QDir_NoSymLinks then {} else {Symlink})\<rparr>"

text \<open>
  The filtering policy in the words of the specification, for each raw name in order:
  drop \<^verbatim>\<open>.\<close> and \<^verbatim>\<open>..\<close> unless dot entries are included; drop names starting with
  \<^verbatim>\<open>.\<close> unless hidden entries are included; classify by one \<^verbatim>\<open>st_ifmt\<close> query; keep
  the name when its kind is in the kind mask.
\<close>

fun listDirectory_policy ::
  "'d env \<Rightarrow> string \<Rightarrow> ListingFilter \<Rightarrow> string list \<Rightarrow> string list \<Rightarrow> 'd world
    \<Rightarrow> string list \<times> 'd world" where
  "listDirectory_policy e path f [] ret w = (ret, w)"
| "listDirectory_policy e path f (name # names) ret w =
     (if \<not> includeDotEntries f \<and> (name = ''.'' \<or> name = ''..'') then
        listDirectory_policy e path f names ret w
      else if \<not> includeHidden f \<and> startsWith name ''.'' then
        listDirectory_policy e path f names ret w
      else
        (case GetFileInfo e (path @ ''/'' @ name) ''st_ifmt'' w of
           (filetype, w') \<Rightarrow>
             if classify filetype \<in> kindMask f
             then listDirectory_policy e path f names (ret @ [name]) w'
             else listDirectory_policy e path f names ret w'))"

text \<open>The names that pass the first two steps of the policy, and so are queried.\<close>

definition queried :: "ListingFilter \<Rightarrow> string \<Rightarrow> bool" where
  "queried f name =
     (\<not> (\<not> includeDotEntries f \<and> (name = ''.'' \<or> name = ''..'')) \<and>
      \<not> (\<not> includeHidden f \<and> startsWith name ''.''))"

text \<open>
  A channel whose state does not change: neither AFC call moves the device to another
  state, so equal queries have equal answers.
\<close>

definition stable_device :: "'d env \<Rightarrow> bool" where
  "stable_device e =
     ((\<forall>d p. snd (afc_get_file_info e d p) = d) \<and> (\<forall>d p. snd (afc_read_directory e d p) = d))"

text \<open>
  What the \<^verbatim>\<open>forever\<close> loop establishes when it ends with the name and world \<open>y\<close>: the name
  is \<^verbatim>\<open>libgpod\<close>, a formatted number and the extension, and on a stable device the last
  query found no file of that name in the directory.
\<close>

definition unused_filename_post ::
  "'d env \<Rightarrow> string \<Rightarrow> string \<Rightarrow> 'd world \<Rightarrow> string \<times> 'd world \<Rightarrow> bool" where
  "unused_filename_post e dir extension w y \<longleftrightarrow>
     (\<exists>n. fst y = ''libgpod'' @ sprintf_0d 6 n @ ''.'' @ extension) \<and>
     (stable_device e \<longrightarrow> device (snd y) = device w \<and>
        file_info e (device w) (dir @ ''/'' @ fst y) ''st_ifmt'' = None)"

text \<open>
  \<^verbatim>\<open>qrand()\<close> returns a value between 0 and \<^verbatim>\<open>RAND_MAX\<close>, a constant of the C library
  (2147483647 in glibc), not of the repository. The weight of a directory number is
  the number of values of \<^verbatim>\<open>qrand()\<close> that select it; the choice is uniform when all
  weights are equal.
\<close>

definition RAND_MAX :: nat where
  "RAND_MAX = 2147483647"

definition dir_num_weight :: "nat \<Rightarrow> int \<Rightarrow> int \<Rightarrow> nat" where
  "dir_num_weight rand_max total_musicdirs k =
     length (filter (\<lambda>r. pick_dir_num (int r) total_musicdirs = k) [0..<Suc rand_max])"

section \<open>Example devices\<close>

text \<open>
  A stable device with one music directory that already holds \<^verbatim>\<open>libgpod000008.mp3\<close>,
  and a directory \<^verbatim>\<open>/Music\<close> with a file, a subdirectory, a symbolic link, a hidden
  file, an entry whose metadata has the key \<^verbatim>\<open>st_ifmt\<close> without a value, and an entry
  whose query fails.
\<close>

definition ipod_files :: "(string \<times> string list) list" where
  "ipod_files =
     [(''/iTunes_Control/Music/F00'', [''st_size'', ''68'', ''st_ifmt'', ''S_IFDIR'']),
      (''/iTunes_Control/Music/F00/libgpod000008.mp3'', [''st_ifmt'', ''S_IFREG'']),
      (''/Music/.'', [''st_ifmt'', ''S_IFDIR'']),
      (''/Music/..'', [''st_ifmt'', ''S_IFDIR'']),
      (''/Music/.hidden'', [''st_ifmt'', ''S_IFREG'']),
      (''/Music/a.mp3'', [''st_size'', ''100'', ''st_ifmt'', ''S_IFREG'']),
      (''/Music/sub'', [''st_ifmt'', ''S_IFDIR'']),
      (''/Music/lnk'', [''st_ifmt'', ''S_IFLNK'']),
      (''/Music/odd'', [''st_size'', ''3'', ''st_ifmt''])]"

definition ipod :: "unit env" where
  "ipod =
     \<lparr>afc_read_directory = (\<lambda>d p.
        (if p = ''/Music''
         then (0, Some [''.'', ''..'', ''.hidden'', ''a.mp3'', ''sub'', ''lnk'', ''odd'', ''gone''])
         else if p = ''/Empty'' then (0, Some [])
         else (1, None), d)),
      afc_get_file_info = (\<lambda>d p.
        (case map_of ipod_files p of Some info \<Rightarrow> (0, Some info) | None \<Rightarrow> (8, None), d)),
      rand = (\<lambda>k. 7 + k)\<rparr>"

text \<open>
  A device whose state is the number of AFC calls made so far: the directory
  \<^verbatim>\<open>F00\<close> is there at the first call only.
\<close>

definition flaky_ipod :: "nat env" where
  "flaky_ipod =
     \<lparr>afc_read_directory = (\<lambda>d p. ((1, None), Suc d)),
      afc_get_file_info = (\<lambda>d p.
        (if p = ''/iTunes_Control/Music/F00'' \<and> d = 0 then (0, Some [''st_ifmt'', ''S_IFDIR''])
         else (8, None), Suc d)),
      rand = (\<lambda>k. 5)\<rparr>"

text \<open>A stable device with the three music directories \<^verbatim>\<open>F00\<close>, \<^verbatim>\<open>F01\<close>, \<^verbatim>\<open>F02\<close>.\<close>

definition three_buckets :: "unit env" where
  "three_buckets =
     \<lparr>afc_read_directory = (\<lambda>d p. ((1, None), d)),
      afc_get_file_info = (\<lambda>d p.
        (if p \<in> set [''/iTunes_Control/Music/F00'', ''/iTunes_Control/Music/F01'',
                      ''/iTunes_Control/Music/F02'']
         then (0, Some [''st_ifmt'', ''S_IFDIR''])
         else (8, None), d)),
      rand = (\<lambda>k. k)\<rparr>"

definition start :: "'d \<Rightarrow> 'd world" where
  "start d = \<lparr>device = d, nrand = 0, trace = []\<rparr>"

section \<open>Lemmas\<close>

subsection \<open>GetFileInfo and Exists\<close>

lemma GetFileInfo_eq:
  "GetFileInfo e path key w =
     (file_info e (device w) path key,
      w\<lparr>device := snd (afc_get_file_info e (device w) path),
        trace := trace w @ [Afc_get_file_info path]\<rparr>)"
  by (simp add: GetFileInfo_def file_info_def call_afc_get_file_info_def split: prod.splits)

lemma GetFileInfo_loop_None:
  "GetFileInfo_loop key l None ret = None \<longleftrightarrow> ret = None \<and> \<not> has_value key l"
  by (induction key l arbitrary: ret rule: has_value.induct) auto

lemma file_info_None:
  "file_info e d path key = None \<longleftrightarrow>
     (fst (fst (afc_get_file_info e d path)) \<noteq> AFC_E_SUCCESS \<or>
      snd (fst (afc_get_file_info e d path)) = None \<or>
      \<not> has_value key (the (snd (fst (afc_get_file_info e d path)))))"
  by (auto simp: file_info_def GetFileInfo_loop_None split: prod.splits)

lemma Exists_eq:
  "Exists e path w =
     (file_info e (device w) path ''st_ifmt'' \<noteq> None,
      w\<lparr>device := snd (afc_get_file_info e (device w) path),
        trace := trace w @ [Afc_get_file_info path]\<rparr>)"
  by (simp add: Exists_def GetFileInfo_eq)

lemma has_value_index:
  "has_value key l \<longleftrightarrow> (\<exists>i. 2 * i + 1 < length l \<and> l ! (2 * i) = key)"
proof (induction key l rule: has_value.induct)
  case (1 key k v rest)
  show ?case
  proof
    assume "has_value key (k # v # rest)"
    then consider "k = key" | "has_value key rest" by auto
    then show "\<exists>i. 2 * i + 1 < length (k # v # rest) \<and> (k # v # rest) ! (2 * i) = key"
    proof cases
      case 1
      then have "2 * 0 + 1 < length (k # v # rest) \<and> (k # v # rest) ! (2 * 0) = key" by simp
      then show ?thesis by blast
    next
      case 2
      with "1.IH" obtain i where "2 * i + 1 < length rest" "rest ! (2 * i) = key" by auto
      then have "2 * Suc i + 1 < length (k # v # rest) \<and> (k # v # rest) ! (2 * Suc i) = key" by simp
      then show ?thesis by blast
    qed
  next
    assume "\<exists>i. 2 * i + 1 < length (k # v # rest) \<and> (k # v # rest) ! (2 * i) = key"
    then obtain i where i: "2 * i + 1 < length (k # v # rest)" "(k # v # rest) ! (2 * i) = key" by auto
    show "has_value key (k # v # rest)"
    proof (cases i)
      case 0
      with i show ?thesis by simp
    next
      case (Suc j)
      with i have "2 * j + 1 < length rest \<and> rest ! (2 * j) = key" by simp
      with "1.IH" show ?thesis by auto
    qed
  qed
qed auto

subsection \<open>ReadDirectory\<close>

lemma policy_Cons:
  "listDirectory_policy e path f (name # names) ret w =
     (if \<not> queried f name then listDirectory_policy e path f names ret w
      else listDirectory_policy e path f names
             (if classify (file_info e (device w) (path @ ''/'' @ name) ''st_ifmt'') \<in> kindMask f
              then ret @ [name] else ret)
             (w\<lparr>device := snd (afc_get_file_info e (device w) (path @ ''/'' @ name)),
                trace := trace w @ [Afc_get_file_info (path @ ''/'' @ name)]\<rparr>))"
  unfolding listDirectory_policy.simps GetFileInfo_eq queried_def by auto

lemma loop_Cons:
  "filters \<noteq> QDir_NoFilter \<Longrightarrow>
   ReadDirectory_loop e path filters (filename # ps) ret w =
     (if \<not> queried (ListingFilter_of filters) filename then ReadDirectory_loop e path filters ps ret w
      else ReadDirectory_loop e path filters ps
             (if classify (file_info e (device w) (path @ ''/'' @ filename) ''st_ifmt'')
                   \<in> kindMask (ListingFilter_of filters)
              then ret @ [filename] else ret)
             (w\<lparr>device := snd (afc_get_file_info e (device w) (path @ ''/'' @ filename)),
                trace := trace w @ [Afc_get_file_info (path @ ''/'' @ filename)]\<rparr>))"
proof -
  assume nf: "filters \<noteq> QDir_NoFilter"
  have k: "classify filetype \<in> kindMask (ListingFilter_of filters) \<longleftrightarrow>
        (filetype = Some ''S_IFREG'' \<and> has_flag filters QDir_Files) \<or>
        (filetype = Some ''S_IFDIR'' \<and> has_flag filters QDir_Dirs) \<or>
        (filetype = Some ''S_IFLNK'' \<and> \<not> has_flag filters QDir_NoSymLinks)" for filetype
    by (simp add: classify_def ListingFilter_of_def)
  have q: "queried (ListingFilter_of filters) filename \<longleftrightarrow>
       \<not> (has_flag filters QDir_NoDotAndDotDot \<and> (filename = ''.'' \<or> filename = ''..'')) \<and>
       \<not> (\<not> has_flag filters QDir_Hidden \<and> startsWith filename ''.'')"
    by (simp add: queried_def ListingFilter_of_def)
  show ?thesis
    unfolding ReadDirectory_loop.simps GetFileInfo_eq k q using nf by auto
qed

declare listDirectory_policy.simps(2) [simp del] ReadDirectory_loop.simps(2) [simp del]

lemma loop_eq_policy:
  "filters \<noteq> QDir_NoFilter \<Longrightarrow>
   ReadDirectory_loop e path filters ps ret w =
   listDirectory_policy e path (ListingFilter_of filters) ps ret w"
proof (induction ps arbitrary: ret w)
  case Nil
  then show ?case by simp
next
  case (Cons filename ps)
  show ?case
    unfolding loop_Cons [OF Cons.prems] policy_Cons Cons.IH [OF Cons.prems] ..
qed

lemma policy_trace:
  "trace (snd (listDirectory_policy e path f ps ret w)) =
     trace w @ map (\<lambda>name. Afc_get_file_info (path @ ''/'' @ name)) (filter (queried f) ps)"
proof (induction ps arbitrary: ret w)
  case Nil
  then show ?case by simp
next
  case (Cons name names)
  show ?case unfolding policy_Cons by (simp add: Cons.IH)
qed

lemma policy_nrand:
  "nrand (snd (listDirectory_policy e path f ps ret w)) = nrand w"
proof (induction ps arbitrary: ret w)
  case Nil
  then show ?case by simp
next
  case (Cons name names)
  show ?case unfolding policy_Cons by (simp add: Cons.IH)
qed

lemma policy_device_stable:
  "stable_device e \<Longrightarrow> device (snd (listDirectory_policy e path f ps ret w)) = device w"
proof (induction ps arbitrary: ret w)
  case Nil
  then show ?case by simp
next
  case (Cons name names)
  show ?case unfolding policy_Cons using Cons.prems by (simp add: Cons.IH stable_device_def)
qed

lemma policy_result_stable:
  "stable_device e \<Longrightarrow>
   fst (listDirectory_policy e path f ps ret w) =
     ret @ filter (\<lambda>name. queried f name \<and>
                     classify (file_info e (device w) (path @ ''/'' @ name) ''st_ifmt'') \<in> kindMask f) ps"
proof (induction ps arbitrary: ret w)
  case Nil
  then show ?case by simp
next
  case (Cons name names)
  show ?case unfolding policy_Cons using Cons.prems by (simp add: Cons.IH stable_device_def)
qed

lemma policy_subseq:
  "\<exists>ys. fst (listDirectory_policy e path f ps ret w) = ret @ ys \<and> subseq ys ps"
proof (induction ps arbitrary: ret w)
  case Nil
  then show ?case by simp
next
  case (Cons name names)
  let ?w' = "w\<lparr>device := snd (afc_get_file_info e (device w) (path @ ''/'' @ name)),
                trace := trace w @ [Afc_get_file_info (path @ ''/'' @ name)]\<rparr>"
  consider
      (skip) "listDirectory_policy e path f (name # names) ret w = listDirectory_policy e path f names ret w"
    | (drop) "listDirectory_policy e path f (name # names) ret w = listDirectory_policy e path f names ret ?w'"
    | (keep) "listDirectory_policy e path f (name # names) ret w = listDirectory_policy e path f names (ret @ [name]) ?w'"
    by (cases "queried f name";
        cases "classify (file_info e (device w) (path @ ''/'' @ name) ''st_ifmt'') \<in> kindMask f")
       (simp_all add: policy_Cons)
  then show ?case
  proof cases
    case skip
    from Cons.IH [of ret w] obtain ys where "fst (listDirectory_policy e path f names ret w) = ret @ ys" "subseq ys names"
      by blast
    with skip have "fst (listDirectory_policy e path f (name # names) ret w) = ret @ ys \<and> subseq ys (name # names)"
      by (simp add: list_emb_Cons)
    then show ?thesis by blast
  next
    case drop
    from Cons.IH [of ret ?w'] obtain ys where "fst (listDirectory_policy e path f names ret ?w') = ret @ ys" "subseq ys names"
      by blast
    with drop have "fst (listDirectory_policy e path f (name # names) ret w) = ret @ ys \<and> subseq ys (name # names)"
      by (simp add: list_emb_Cons)
    then show ?thesis by blast
  next
    case keep
    from Cons.IH [of "ret @ [name]" ?w'] obtain ys
      where "fst (listDirectory_policy e path f names (ret @ [name]) ?w') = (ret @ [name]) @ ys" "subseq ys names"
      by blast
    with keep have "fst (listDirectory_policy e path f (name # names) ret w) = ret @ (name # ys) \<and> subseq (name # ys) (name # names)"
      by simp
    then show ?thesis by blast
  qed
qed

lemma policy_excludes:
  "n \<in> set (fst (listDirectory_policy e path f ps ret w)) \<Longrightarrow>
   n \<in> set ret \<or> (\<exists>d. classify (file_info e d (path @ ''/'' @ n) ''st_ifmt'') \<in> kindMask f)"
proof (induction ps arbitrary: ret w)
  case Nil
  then show ?case by simp
next
  case (Cons name names)
  let ?w' = "w\<lparr>device := snd (afc_get_file_info e (device w) (path @ ''/'' @ name)),
                trace := trace w @ [Afc_get_file_info (path @ ''/'' @ name)]\<rparr>"
  show ?case
  proof (cases "queried f name \<and> classify (file_info e (device w) (path @ ''/'' @ name) ''st_ifmt'') \<in> kindMask f")
    case True
    with Cons.prems have "n \<in> set (fst (listDirectory_policy e path f names (ret @ [name]) ?w'))"
      unfolding policy_Cons by simp
    from Cons.IH [OF this] True show ?thesis by auto
  next
    case False
    then consider "n \<in> set (fst (listDirectory_policy e path f names ret ?w'))"
      | "n \<in> set (fst (listDirectory_policy e path f names ret w))"
      using Cons.prems unfolding policy_Cons by (auto split: if_splits)
    then show ?thesis using Cons.IH by cases blast+
  qed
qed

lemma loop_NoFilter:
  "ReadDirectory_loop e path QDir_NoFilter ps ret w = (ret @ ps, w)"
  by (induction ps arbitrary: ret) (simp_all add: ReadDirectory_loop.simps)

lemma ReadDirectory_fail:
  assumes "fst (fst (afc_read_directory e (device w) path)) \<noteq> AFC_E_SUCCESS \<or>
           snd (fst (afc_read_directory e (device w) path)) = None"
  shows "ReadDirectory e path filters w =
     ([], w\<lparr>device := snd (afc_read_directory e (device w) path),
             trace := trace w @ [Afc_read_directory path]\<rparr>)"
  using assms by (auto simp: ReadDirectory_def call_afc_read_directory_def split: prod.splits)

lemma ReadDirectory_ok:
  assumes "fst (afc_read_directory e (device w) path) = (AFC_E_SUCCESS, Some raw)"
  shows "ReadDirectory e path filters w =
     ReadDirectory_loop e path filters raw []
       (w\<lparr>device := snd (afc_read_directory e (device w) path),
          trace := trace w @ [Afc_read_directory path]\<rparr>)"
  using assms by (simp add: ReadDirectory_def call_afc_read_directory_def)

lemma read_result_cases:
  obtains (fail) "fst (fst (afc_read_directory e d path)) \<noteq> AFC_E_SUCCESS \<or>
                  snd (fst (afc_read_directory e d path)) = None"
        | (ok) raw where "fst (afc_read_directory e d path) = (AFC_E_SUCCESS, Some raw)"
proof (cases "fst (afc_read_directory e d path)")
  case (Pair a b)
  show ?thesis
  proof (cases "a = AFC_E_SUCCESS \<and> b \<noteq> None")
    case True
    then obtain raw where "b = Some raw" by auto
    with Pair True show ?thesis by (intro ok [of raw]) simp
  next
    case False
    with Pair show ?thesis by (intro fail) auto
  qed
qed

lemma file_info_no_file_type:
  "file_info e d path ''st_ifmt'' = None \<longleftrightarrow> no_file_type (fst (afc_get_file_info e d path))"
  by (simp add: file_info_None no_file_type_def)

lemma Unknown_not_in_kindMask: "Unknown \<notin> kindMask (ListingFilter_of filters)"
  by (simp add: ListingFilter_of_def)

lemma classify_None: "classify None = Unknown"
  by (simp add: classify_def)

lemma classify_Directory: "classify t = Directory \<longleftrightarrow> t = Some ''S_IFDIR''"
  by (simp add: classify_def)

lemma NoFilter_kindMask: "kindMask (ListingFilter_of QDir_NoFilter) \<noteq> {Directory}"
  by (simp add: ListingFilter_of_def has_flag_def QDir_NoFilter_def QDir_Files_def QDir_Dirs_def
        QDir_NoSymLinks_def)


subsection \<open>GetUnusedFilename\<close>

lemma qrand_eq:
  "qrand e w = (int (rand e (nrand w)), w\<lparr>nrand := Suc (nrand w), trace := trace w @ [QRand]\<rparr>)"
  by (simp add: qrand_def)

lemma unused_filename_post_stop:
  assumes "file_info e (device w) (dir @ ''/'' @ ''libgpod'' @ sprintf_0d 6 n @ ''.'' @ extension) ''st_ifmt'' = None"
    and "stable_device e \<longrightarrow> device w' = device w"
  shows "unused_filename_post e dir extension w (''libgpod'' @ sprintf_0d 6 n @ ''.'' @ extension, w')"
proof -
  have "\<exists>m. ''libgpod'' @ sprintf_0d 6 n @ ''.'' @ extension = ''libgpod'' @ sprintf_0d 6 m @ ''.'' @ extension"
    by blast
  with assms show ?thesis
    unfolding unused_filename_post_def fst_conv snd_conv by blast
qed

lemma unused_filename_post_again:
  assumes "unused_filename_post e dir extension w' y"
    and "stable_device e \<longrightarrow> device w' = device w"
  shows "unused_filename_post e dir extension w y"
  using assms unfolding unused_filename_post_def by auto

lemma unused_filename_loop_post:
  assumes "unused_filename_loop e dir extension w = Some y"
  shows "unused_filename_post e dir extension w y"
proof (rule unused_filename_loop.raw_induct [where P = unused_filename_post, OF _ assms])
  fix loop :: "'a env \<Rightarrow> string \<Rightarrow> string \<Rightarrow> 'a world \<Rightarrow> (string \<times> 'a world) option"
  fix e dir extension w y
  assume IH: "\<And>e dir extension w y. loop e dir extension w = Some y \<Longrightarrow> unused_filename_post e dir extension w y"
  assume step: "(case qrand e w of
        (r, w1) \<Rightarrow>
          (case Exists e (dir @ ''/'' @ (''libgpod'' @ sprintf_0d 6 (r mod kRandMax) @ ''.'' @ extension)) w1 of
             (found, w2) \<Rightarrow>
               if \<not> found
               then Some (''libgpod'' @ sprintf_0d 6 (r mod kRandMax) @ ''.'' @ extension, w2)
               else loop e dir extension w2)) = Some y"
  define n where "n = int (rand e (nrand w)) mod kRandMax"
  define p where "p = dir @ ''/'' @ ''libgpod'' @ sprintf_0d 6 n @ ''.'' @ extension"
  define w2 where "w2 = w\<lparr>nrand := Suc (nrand w),
                         device := snd (afc_get_file_info e (device w) p),
                         trace := trace w @ [QRand, Afc_get_file_info p]\<rparr>"
  have dev: "stable_device e \<longrightarrow> device w2 = device w"
    by (simp add: w2_def stable_device_def)
  show "unused_filename_post e dir extension w y"
  proof (cases "file_info e (device w) p ''st_ifmt''")
    case None
    from None step have "y = (''libgpod'' @ sprintf_0d 6 n @ ''.'' @ extension, w2)"
      by (auto simp add: qrand_eq Exists_eq n_def p_def w2_def)
    moreover from None have "file_info e (device w)
        (dir @ ''/'' @ ''libgpod'' @ sprintf_0d 6 n @ ''.'' @ extension) ''st_ifmt'' = None"
      by (simp only: p_def)
    ultimately show ?thesis
      using dev by (simp only: unused_filename_post_stop)
  next
    case (Some filetype)
    from Some step have "loop e dir extension w2 = Some y"
      by (auto simp add: qrand_eq Exists_eq n_def p_def w2_def)
    then have "unused_filename_post e dir extension w2 y"
      by (rule IH)
    then show ?thesis
      using dev by (rule unused_filename_post_again)
  qed
qed

lemma section_last_append:
  "sep \<notin> set t \<Longrightarrow> section_last sep (s @ sep # t) = t"
proof -
  assume "sep \<notin> set t"
  then have "takeWhile (\<lambda>c. c \<noteq> sep) (rev t) = rev t"
    by (auto simp: takeWhile_eq_all_conv)
  then have "takeWhile (\<lambda>c. c \<noteq> sep) (rev t @ sep # rev s) = rev t"
    by (simp add: takeWhile_tail)
  then show ?thesis by (simp add: section_last_def)
qed

lemma section_last_no_sep: "sep \<notin> set (section_last sep s)"
  by (auto simp: section_last_def dest: set_takeWhileD)

lemma char_toLower_dot:
  assumes "char_toLower c = CHR ''.''"
  shows "c = CHR ''.''"
proof (cases "map_of (zip ''ABCDEFGHIJKLMNOPQRSTUVWXYZ'' ''abcdefghijklmnopqrstuvwxyz'') c")
  case None
  with assms show ?thesis
    unfolding char_toLower_def by (simp only: option.case)
next
  case (Some l)
  with assms have "l = CHR ''.''"
    unfolding char_toLower_def by (simp only: option.case)
  moreover from Some have "l \<in> set ''abcdefghijklmnopqrstuvwxyz''"
    by (blast dest: map_of_SomeD set_zip_rightD)
  ultimately show ?thesis by simp
qed

lemma toLower_no_dot: "CHR ''.'' \<notin> set s \<Longrightarrow> CHR ''.'' \<notin> set (toLower s)"
proof
  assume no: "CHR ''.'' \<notin> set s" and "CHR ''.'' \<in> set (toLower s)"
  then obtain c where "c \<in> set s" "char_toLower c = CHR ''.''"
    by (auto simp: toLower_def)
  with char_toLower_dot [of c] no show False by simp
qed

lemma file_extension_no_dot: "CHR ''.'' \<notin> set (file_extension metadata)"
  by (simp add: file_extension_def Let_def toLower_no_dot section_last_no_sep)

lemma music_dir_0: "music_dir 0 = ''/iTunes_Control/Music/F00''"
  by (simp add: music_dir_def sprintf_0d_def zero_pad_def decimal.simps)

lemma count_musicdirs_none:
  assumes "file_info e (device w) (music_dir n) ''st_ifmt'' = None"
  shows "count_musicdirs e n w =
     Some (n, w\<lparr>device := snd (afc_get_file_info e (device w) (music_dir n)),
                 trace := trace w @ [Afc_get_file_info (music_dir n)]\<rparr>)"
  using assms by (subst count_musicdirs.simps) (simp add: Exists_eq)

lemma count_musicdirs_found:
  assumes "file_info e (device w) (music_dir n) ''st_ifmt'' = Some t"
  shows "count_musicdirs e n w =
     count_musicdirs e (incr_int32 n)
       (w\<lparr>device := snd (afc_get_file_info e (device w) (music_dir n)),
          trace := trace w @ [Afc_get_file_info (music_dir n)]\<rparr>)"
  using assms by (subst count_musicdirs.simps) (simp add: Exists_eq)

text \<open>
  On a stable device where the music directories \<open>k, ..., k + n - 1\<close> are present and
  \<open>k + n\<close> is absent, the count that starts at \<open>k\<close> ends with \<open>k + n\<close>, after one query of
  each of them in order.
\<close>

lemma count_musicdirs_stable:
  assumes "stable_device e"
    and "\<forall>i<n. file_info e (device w) (music_dir (int (k + i))) ''st_ifmt'' \<noteq> None"
    and "file_info e (device w) (music_dir (int (k + n))) ''st_ifmt'' = None"
    and "k + n \<le> 2147483647"
  shows "count_musicdirs e (int k) w =
     Some (int (k + n),
       w\<lparr>trace := trace w @ map (\<lambda>i. Afc_get_file_info (music_dir (int i))) [k..<Suc (k + n)]\<rparr>)"
  using assms
proof (induction n arbitrary: k w)
  case 0
  from "0.prems"(1) have d: "snd (afc_get_file_info e (device w) (music_dir (int k))) = device w"
    by (simp add: stable_device_def)
  from "0.prems"(3) have "file_info e (device w) (music_dir (int k)) ''st_ifmt'' = None"
    by simp
  from count_musicdirs_none [OF this] show ?case
    by (simp add: d)
next
  case (Suc n)
  let ?w' = "w\<lparr>device := snd (afc_get_file_info e (device w) (music_dir (int k))),
          trace := trace w @ [Afc_get_file_info (music_dir (int k))]\<rparr>"
  from Suc.prems(1) have d: "snd (afc_get_file_info e (device w) (music_dir (int k))) = device w"
    by (simp add: stable_device_def)
  from Suc.prems(2) have "file_info e (device w) (music_dir (int (k + 0))) ''st_ifmt'' \<noteq> None"
    by blast
  then obtain t where t: "file_info e (device w) (music_dir (int k)) ''st_ifmt'' = Some t"
    by auto
  from Suc.prems(4) have inc: "incr_int32 (int k) = int (Suc k)"
    by (simp add: incr_int32_def)
  have a: "\<forall>i<n. file_info e (device ?w') (music_dir (int (Suc k + i))) ''st_ifmt'' \<noteq> None"
  proof (intro allI impI)
    fix i assume "i < n"
    then have "Suc i < Suc n" by simp
    with Suc.prems(2) have "file_info e (device w) (music_dir (int (k + Suc i))) ''st_ifmt'' \<noteq> None"
      by blast
    then show "file_info e (device ?w') (music_dir (int (Suc k + i))) ''st_ifmt'' \<noteq> None"
      by (simp add: d)
  qed
  have b: "file_info e (device ?w') (music_dir (int (Suc k + n))) ''st_ifmt'' = None"
    using Suc.prems(3) by (simp add: d)
  have c: "Suc k + n \<le> 2147483647"
    using Suc.prems(4) by simp
  have l: "[k..<Suc (k + Suc n)] = k # [Suc k..<Suc (Suc k + n)]"
    by (simp add: upt_conv_Cons)
  from Suc.IH [OF Suc.prems(1) a b c]
  show ?case
    unfolding count_musicdirs_found [OF t] inc l by (simp add: d)
qed

lemma GetUnusedFilename_no_dirs:
  assumes "count_musicdirs e 0 w = Some (N, w1)" and "N \<le> 0"
  shows "GetUnusedFilename e metadata w = Some (None, qWarning QWarning_no_music_directories w1)"
  using assms by (simp add: GetUnusedFilename_def)

lemma GetUnusedFilename_vanished:
  assumes "count_musicdirs e 0 w = Some (N, w1)" and "0 < N"
    and "file_info e (device w1) (music_dir (pick_dir_num (int (rand e (nrand w1))) N)) ''st_ifmt'' = None"
  shows "GetUnusedFilename e metadata w =
     Some (None,
       w1\<lparr>nrand := Suc (nrand w1),
          device := snd (afc_get_file_info e (device w1)
                      (music_dir (pick_dir_num (int (rand e (nrand w1))) N))),
          trace := trace w1 @
            [QRand,
             Afc_get_file_info (music_dir (pick_dir_num (int (rand e (nrand w1))) N)),
             QWarning_music_directory_missing (music_dir (pick_dir_num (int (rand e (nrand w1))) N))]\<rparr>)"
  using assms(3) assms(1,2) by (simp add: GetUnusedFilename_def qrand_eq Exists_eq qWarning_def)

lemma GetUnusedFilename_bucket:
  assumes "count_musicdirs e 0 w = Some (N, w1)" and "0 < N"
    and "file_info e (device w1) (music_dir (pick_dir_num (int (rand e (nrand w1))) N)) ''st_ifmt'' = Some t"
  shows "GetUnusedFilename e metadata w =
     (case unused_filename_loop e (music_dir (pick_dir_num (int (rand e (nrand w1))) N))
             (file_extension metadata)
             (w1\<lparr>nrand := Suc (nrand w1),
                device := snd (afc_get_file_info e (device w1)
                      (music_dir (pick_dir_num (int (rand e (nrand w1))) N))),
                trace := trace w1 @
                  [QRand,
                   Afc_get_file_info (music_dir (pick_dir_num (int (rand e (nrand w1))) N))]\<rparr>) of
        None \<Rightarrow> None
      | Some (filename, w4) \<Rightarrow>
          Some (Some (music_dir (pick_dir_num (int (rand e (nrand w1))) N) @ ''/'' @ filename), w4))"
  using assms(3) assms(1,2) by (simp add: GetUnusedFilename_def qrand_eq Exists_eq)

lemma GetUnusedFilename_pathE:
  assumes "GetUnusedFilename e metadata w = Some (Some path, w')"
  obtains N w1 w3 filename where
    "count_musicdirs e 0 w = Some (N, w1)" and "0 < N"
    and "unused_filename_loop e (music_dir (pick_dir_num (int (rand e (nrand w1))) N))
           (file_extension metadata) w3 = Some (filename, w')"
    and "path = music_dir (pick_dir_num (int (rand e (nrand w1))) N) @ ''/'' @ filename"
proof (cases "count_musicdirs e 0 w")
  case None
  with assms show ?thesis by (simp add: GetUnusedFilename_def)
next
  case (Some c)
  obtain N w1 where c: "c = (N, w1)" by (cases c)
  note count = Some [unfolded c]
  have pos: "0 < N"
  proof (rule ccontr)
    assume "\<not> 0 < N"
    then have "N \<le> 0" by simp
    from GetUnusedFilename_no_dirs [OF count this, of metadata] assms show False by simp
  qed
  define dir where "dir = music_dir (pick_dir_num (int (rand e (nrand w1))) N)"
  define w3 where "w3 = w1\<lparr>nrand := Suc (nrand w1),
                device := snd (afc_get_file_info e (device w1) dir),
                trace := trace w1 @ [QRand, Afc_get_file_info dir]\<rparr>"
  show ?thesis
  proof (cases "file_info e (device w1) dir ''st_ifmt''")
    case None
    from GetUnusedFilename_vanished [OF count pos None [unfolded dir_def], of metadata] assms
    show ?thesis by simp
  next
    case (Some t)
    from GetUnusedFilename_bucket [OF count pos Some [unfolded dir_def], of metadata] assms
    have "(case unused_filename_loop e dir (file_extension metadata) w3 of
             None \<Rightarrow> None
           | Some (filename, w4) \<Rightarrow> Some (Some (dir @ ''/'' @ filename), w4)) = Some (Some path, w')"
      by (simp only: dir_def w3_def)
    then obtain filename where
      loop: "unused_filename_loop e dir (file_extension metadata) w3 = Some (filename, w')"
      and path: "path = dir @ ''/'' @ filename"
      by (auto split: option.splits prod.splits)
    show ?thesis
      by (rule that [OF count pos loop [unfolded dir_def] path [unfolded dir_def]])
  qed
qed

subsection \<open>The weights of the directory numbers\<close>

lemma count_residue:
  "k < n \<Longrightarrow>
   length (filter (\<lambda>r. r mod n = k) [0..<m]) = m div n + (if k < m mod n then 1 else 0)"
proof (induction m)
  case 0
  then show ?case by simp
next
  case (Suc m)
  show ?case
  proof (cases "Suc (m mod n) = n")
    case True
    with Suc.prems have "(m mod n = k) = (\<not> k < m mod n)" by auto
    with True Suc show ?thesis by (simp add: mod_Suc div_Suc)
  next
    case False
    with Suc.prems have "(k < Suc (m mod n)) = (k < m mod n \<or> m mod n = k)" by auto
    with False Suc show ?thesis by (auto simp add: mod_Suc div_Suc)
  qed
qed

lemma pick_dir_num_nat:
  "0 < N \<Longrightarrow> 0 \<le> k \<Longrightarrow> pick_dir_num (int r) N = k \<longleftrightarrow> r mod nat N = nat k"
proof -
  assume N: "0 < N" and k: "0 \<le> k"
  have "int (r mod nat N) = int r mod N"
    using N by (simp add: zmod_int)
  then show ?thesis
    using k unfolding pick_dir_num_def by (metis int_nat_eq nat_int)
qed

lemma dir_num_weight_eq:
  assumes "0 < N" "0 \<le> k" "k < N"
  shows "dir_num_weight rand_max N k =
           Suc rand_max div nat N + (if nat k < Suc rand_max mod nat N then 1 else 0)"
proof -
  have "dir_num_weight rand_max N k = length (filter (\<lambda>r. r mod nat N = nat k) [0..<Suc rand_max])"
    unfolding dir_num_weight_def using assms by (simp only: pick_dir_num_nat)
  also have "\<dots> = Suc rand_max div nat N + (if nat k < Suc rand_max mod nat N then 1 else 0)"
    using assms by (intro count_residue) simp
  finally show ?thesis .
qed

lemma dir_num_weight_near:
  assumes "0 < N" "0 \<le> k" "k < N" "0 \<le> k'" "k' < N"
  shows "dir_num_weight rand_max N k \<le> dir_num_weight rand_max N k' + 1"
  using assms by (simp add: dir_num_weight_eq)

lemma dir_num_weight_uniform_iff:
  assumes "0 < N"
  shows "(\<forall>k k'. 0 \<le> k \<and> k < N \<and> 0 \<le> k' \<and> k' < N \<longrightarrow>
            dir_num_weight rand_max N k = dir_num_weight rand_max N k') \<longleftrightarrow>
         nat N dvd Suc rand_max"
proof
  assume u: "\<forall>k k'. 0 \<le> k \<and> k < N \<and> 0 \<le> k' \<and> k' < N \<longrightarrow>
            dir_num_weight rand_max N k = dir_num_weight rand_max N k'"
  show "nat N dvd Suc rand_max"
  proof (rule ccontr)
    assume "\<not> nat N dvd Suc rand_max"
    then have pos: "0 < Suc rand_max mod nat N"
      by (simp add: dvd_eq_mod_eq_0)
    have lt: "Suc rand_max mod nat N < nat N"
      using assms by simp
    from u assms have "dir_num_weight rand_max N 0 = dir_num_weight rand_max N (N - 1)"
      by simp
    moreover have "dir_num_weight rand_max N 0 = Suc rand_max div nat N + 1"
      using assms pos by (simp add: dir_num_weight_eq)
    moreover have "\<not> nat (N - 1) < Suc rand_max mod nat N"
      using assms lt by arith
    then have "dir_num_weight rand_max N (N - 1) = Suc rand_max div nat N"
      using assms by (simp add: dir_num_weight_eq)
    ultimately show False by simp
  qed
next
  assume "nat N dvd Suc rand_max"
  then have "Suc rand_max mod nat N = 0"
    by (simp add: dvd_eq_mod_eq_0)
  then show "\<forall>k k'. 0 \<le> k \<and> k < N \<and> 0 \<le> k' \<and> k' < N \<longrightarrow>
            dir_num_weight rand_max N k = dir_num_weight rand_max N k'"
    using assms by (simp add: dir_num_weight_eq)
qed

subsection \<open>Evaluating the examples\<close>

lemma replicate_numeral: "replicate (numeral k) x = x # replicate (pred_numeral k) x"
  by (simp add: numeral_eq_Suc)

lemmas example_defs =
  GetUnusedFilename_def count_musicdirs.simps unused_filename_loop.simps music_dir_def
  sprintf_0d_def zero_pad_def decimal.simps replicate_numeral Exists_def GetFileInfo_def
  call_afc_get_file_info_def call_afc_read_directory_def AFC_E_SUCCESS_def incr_int32_def
  qrand_def pick_dir_num_def file_extension_def toLower_def char_toLower_def section_last_def
  kRandMax_def qWarning_def start_def ipod_def ipod_files_def flaky_ipod_def three_buckets_def
  ReadDirectory_def ReadDirectory_loop.simps startsWith_def has_flag_def QDir_Dirs_def
  QDir_Files_def QDir_NoSymLinks_def QDir_Hidden_def QDir_NoDotAndDotDot_def QDir_NoFilter_def

lemma stable_device_ipod: "stable_device ipod"
  by (simp add: stable_device_def ipod_def)

lemma kindMask_Directory_iff:
  "kindMask (ListingFilter_of filters) = {Directory} \<longleftrightarrow>
     has_flag filters QDir_Dirs \<and> \<not> has_flag filters QDir_Files \<and>
     has_flag filters QDir_NoSymLinks"
  by (auto simp: ListingFilter_of_def)

text \<open>
  \<^verbatim>\<open>QDir::Dirs\<close> alone does not have the kind mask \<open>{Directory}\<close>: without
  \<^verbatim>\<open>NoSymLinks\<close> the symbolic link of the example is listed with the subdirectory.
\<close>

lemma ReadDirectory_Dirs_alone:
  "fst (ReadDirectory ipod ''/Music'' QDir_Dirs (start ())) = [''sub'', ''lnk'']"
  by (simp add: example_defs)

section \<open>The claims\<close>

subsection \<open>ReadDirectory\<close>

text \<open>
  C4: called with \<^verbatim>\<open>QDir::NoFilter\<close>, \<^verbatim>\<open>ReadDirectory\<close> makes the one call of
  \<^verbatim>\<open>afc_read_directory\<close> and no call of \<^verbatim>\<open>afc_get_file_info\<close>, whatever the device
  answers; when the device reports the names \<open>raw\<close>, it returns exactly \<open>raw\<close>, in order,
  with \<^verbatim>\<open>.\<close>, \<^verbatim>\<open>..\<close> and the hidden names.
\<close>

theorem ReadDirectory_NoFilter_raw:
  "trace (snd (ReadDirectory e path QDir_NoFilter w)) = trace w @ [Afc_read_directory path] \<and>
   (fst (afc_read_directory e (device w) path) = (AFC_E_SUCCESS, Some raw) \<longrightarrow>
      ReadDirectory e path QDir_NoFilter w =
        (raw, w\<lparr>device := snd (afc_read_directory e (device w) path),
                 trace := trace w @ [Afc_read_directory path]\<rparr>))"
proof (intro conjI impI)
  show "trace (snd (ReadDirectory e path QDir_NoFilter w)) = trace w @ [Afc_read_directory path]"
  proof (cases rule: read_result_cases [of e "device w" path])
    case fail
    then show ?thesis by (simp add: ReadDirectory_fail)
  next
    case (ok raw')
    then show ?thesis by (simp add: ReadDirectory_ok loop_NoFilter)
  qed
next
  assume "fst (afc_read_directory e (device w) path) = (AFC_E_SUCCESS, Some raw)"
  then show "ReadDirectory e path QDir_NoFilter w =
        (raw, w\<lparr>device := snd (afc_read_directory e (device w) path),
                 trace := trace w @ [Afc_read_directory path]\<rparr>)"
    by (simp add: ReadDirectory_ok loop_NoFilter)
qed

theorem ReadDirectory_NoFilter_raw_witness:
  "fst (afc_read_directory ipod (device (start ())) ''/Music'') =
     (AFC_E_SUCCESS, Some [''.'', ''..'', ''.hidden'', ''a.mp3'', ''sub'', ''lnk'', ''odd'', ''gone'']) \<and>
   ReadDirectory ipod ''/Music'' QDir_NoFilter (start ()) =
     ([''.'', ''..'', ''.hidden'', ''a.mp3'', ''sub'', ''lnk'', ''odd'', ''gone''],
      \<lparr>device = (), nrand = 0, trace = [Afc_read_directory ''/Music'']\<rparr>)"
proof -
  have h: "fst (afc_read_directory ipod (device (start ())) ''/Music'') =
     (AFC_E_SUCCESS, Some [''.'', ''..'', ''.hidden'', ''a.mp3'', ''sub'', ''lnk'', ''odd'', ''gone''])"
    by (simp add: ipod_def start_def AFC_E_SUCCESS_def)
  note c = ReadDirectory_NoFilter_raw
    [where e = ipod and w = "start ()" and path = "''/Music''"
       and raw = "[''.'', ''..'', ''.hidden'', ''a.mp3'', ''sub'', ''lnk'', ''odd'', ''gone'']"]
  from c h have "ReadDirectory ipod ''/Music'' QDir_NoFilter (start ()) =
        ([''.'', ''..'', ''.hidden'', ''a.mp3'', ''sub'', ''lnk'', ''odd'', ''gone''],
         (start ())\<lparr>device := snd (afc_read_directory ipod (device (start ())) ''/Music''),
                 trace := trace (start ()) @ [Afc_read_directory ''/Music'']\<rparr>)"
    by (rule conjunct2 [THEN mp])
  then have "ReadDirectory ipod ''/Music'' QDir_NoFilter (start ()) =
     ([''.'', ''..'', ''.hidden'', ''a.mp3'', ''sub'', ''lnk'', ''odd'', ''gone''],
      \<lparr>device = (), nrand = 0, trace = [Afc_read_directory ''/Music'']\<rparr>)"
    by (simp add: start_def)
  with h show ?thesis ..
qed

text \<open>
  C10: when \<^verbatim>\<open>afc_read_directory\<close> fails, with an error code or with a null list,
  \<^verbatim>\<open>ReadDirectory\<close> returns the empty list, which is also what it returns for a
  directory that the device lists as empty: the caller cannot tell the two apart.
\<close>

theorem ReadDirectory_failure_is_empty:
  assumes "fst (fst (afc_read_directory e (device w) path)) \<noteq> AFC_E_SUCCESS \<or>
           snd (fst (afc_read_directory e (device w) path)) = None"
    and "fst (afc_read_directory e' (device w') path') = (AFC_E_SUCCESS, Some [])"
  shows "fst (ReadDirectory e path filters w) = [] \<and>
         fst (ReadDirectory e' path' filters' w') = []"
  by (simp add: ReadDirectory_fail [OF assms(1)] ReadDirectory_ok [OF assms(2)])

theorem ReadDirectory_failure_is_empty_witness:
  "fst (afc_read_directory ipod (device (start ())) ''/nowhere'') = (1, None) \<and>
   fst (afc_read_directory ipod (device (start ())) ''/Empty'') = (AFC_E_SUCCESS, Some []) \<and>
   fst (ReadDirectory ipod ''/nowhere'' QDir_Files (start ())) = [] \<and>
   fst (ReadDirectory ipod ''/Empty'' QDir_Files (start ())) = []"
proof -
  have h0: "fst (afc_read_directory ipod (device (start ())) ''/nowhere'') = (1, None)"
    by (simp add: ipod_def start_def)
  then have h1: "fst (fst (afc_read_directory ipod (device (start ())) ''/nowhere'')) \<noteq> AFC_E_SUCCESS \<or>
    snd (fst (afc_read_directory ipod (device (start ())) ''/nowhere'')) = None"
    by simp
  have h2: "fst (afc_read_directory ipod (device (start ())) ''/Empty'') = (AFC_E_SUCCESS, Some [])"
    by (simp add: ipod_def start_def AFC_E_SUCCESS_def)
  note c = ReadDirectory_failure_is_empty [OF h1 h2, where filters = QDir_Files and filters' = QDir_Files]
  show ?thesis
    by (intro conjI h0 h2 c [THEN conjunct1] c [THEN conjunct2])
qed

text \<open>
  C3: for a filter other than \<^verbatim>\<open>QDir::NoFilter\<close> and the names \<open>raw\<close> that the device
  reports, \<^verbatim>\<open>ReadDirectory\<close> is the policy of the specification run over \<open>raw\<close> in order
  with the filter that the flags stand for: the same names and the same calls. The result
  is a subsequence of \<open>raw\<close>, and the metadata queries are one \<^verbatim>\<open>st_ifmt\<close> query for each
  name that passes the dot and hidden steps, in listing order.
\<close>

theorem ReadDirectory_filter_policy:
  assumes "filters \<noteq> QDir_NoFilter"
    and "fst (afc_read_directory e (device w) path) = (AFC_E_SUCCESS, Some raw)"
  shows "ReadDirectory e path filters w =
           listDirectory_policy e path (ListingFilter_of filters) raw []
             (snd (call_afc_read_directory e path w)) \<and>
         subseq (fst (ReadDirectory e path filters w)) raw \<and>
         trace (snd (ReadDirectory e path filters w)) =
           trace w @ Afc_read_directory path #
             map (\<lambda>name. Afc_get_file_info (path @ ''/'' @ name))
               (filter (queried (ListingFilter_of filters)) raw)"
proof -
  let ?w1 = "w\<lparr>device := snd (afc_read_directory e (device w) path),
               trace := trace w @ [Afc_read_directory path]\<rparr>"
  have w1: "snd (call_afc_read_directory e path w) = ?w1"
    by (simp add: call_afc_read_directory_def)
  have eq: "ReadDirectory e path filters w =
      listDirectory_policy e path (ListingFilter_of filters) raw [] ?w1"
    by (simp only: ReadDirectory_ok [OF assms(2)] loop_eq_policy [OF assms(1)])
  from policy_subseq [of e path "ListingFilter_of filters" raw "[]" ?w1]
  have "subseq (fst (ReadDirectory e path filters w)) raw"
    by (auto simp: eq)
  moreover have "trace (snd (ReadDirectory e path filters w)) =
           trace w @ Afc_read_directory path #
             map (\<lambda>name. Afc_get_file_info (path @ ''/'' @ name))
               (filter (queried (ListingFilter_of filters)) raw)"
    by (simp add: eq policy_trace)
  ultimately show ?thesis
    by (simp only: eq w1 simp_thms)
qed

theorem ReadDirectory_filter_policy_witness:
  "QDir_Dirs OR QDir_Files OR QDir_Hidden OR QDir_NoDotAndDotDot \<noteq> QDir_NoFilter \<and>
   fst (afc_read_directory ipod (device (start ())) ''/Music'') =
     (AFC_E_SUCCESS, Some [''.'', ''..'', ''.hidden'', ''a.mp3'', ''sub'', ''lnk'', ''odd'', ''gone'']) \<and>
   ReadDirectory ipod ''/Music'' (QDir_Dirs OR QDir_Files OR QDir_Hidden OR QDir_NoDotAndDotDot)
       (start ()) =
     listDirectory_policy ipod ''/Music''
       (ListingFilter_of (QDir_Dirs OR QDir_Files OR QDir_Hidden OR QDir_NoDotAndDotDot))
       [''.'', ''..'', ''.hidden'', ''a.mp3'', ''sub'', ''lnk'', ''odd'', ''gone''] []
       (snd (call_afc_read_directory ipod ''/Music'' (start ()))) \<and>
   fst (ReadDirectory ipod ''/Music'' (QDir_Dirs OR QDir_Files OR QDir_Hidden OR QDir_NoDotAndDotDot)
         (start ())) = [''.hidden'', ''a.mp3'', ''sub'', ''lnk'']"
proof -
  have h1: "QDir_Dirs OR QDir_Files OR QDir_Hidden OR QDir_NoDotAndDotDot \<noteq> QDir_NoFilter"
    by (simp add: QDir_Dirs_def QDir_Files_def QDir_Hidden_def QDir_NoDotAndDotDot_def
          QDir_NoFilter_def)
  have h2: "fst (afc_read_directory ipod (device (start ())) ''/Music'') =
     (AFC_E_SUCCESS, Some [''.'', ''..'', ''.hidden'', ''a.mp3'', ''sub'', ''lnk'', ''odd'', ''gone''])"
    by (simp add: ipod_def start_def AFC_E_SUCCESS_def)
  note c = ReadDirectory_filter_policy [OF h1 h2]
  have r: "fst (ReadDirectory ipod ''/Music''
         (QDir_Dirs OR QDir_Files OR QDir_Hidden OR QDir_NoDotAndDotDot) (start ())) =
       [''.hidden'', ''a.mp3'', ''sub'', ''lnk'']"
    by (simp add: example_defs)
  show ?thesis
    by (intro conjI h1 h2 c [THEN conjunct1] r)
qed

text \<open>
  C2: on a channel whose state does not change, \<^verbatim>\<open>ReadDirectory\<close> called with flags whose
  kind mask is \<open>{Directory}\<close> (\<^verbatim>\<open>Dirs\<close> and \<^verbatim>\<open>NoSymLinks\<close> set, \<^verbatim>\<open>Files\<close> not set) returns a
  subsequence of what it returns for \<^verbatim>\<open>QDir::NoFilter\<close>, and for every name it returns the
  \<^verbatim>\<open>st_ifmt\<close> query of that entry, made again after the call, yields \<^verbatim>\<open>S_IFDIR\<close>.
\<close>

theorem ReadDirectory_directories_only:
  assumes "stable_device e" and "kindMask (ListingFilter_of filters) = {Directory}"
  shows "subseq (fst (ReadDirectory e path filters w)) (fst (ReadDirectory e path QDir_NoFilter w)) \<and>
         (\<forall>name \<in> set (fst (ReadDirectory e path filters w)).
            fst (GetFileInfo e (path @ ''/'' @ name) ''st_ifmt''
                   (snd (ReadDirectory e path filters w))) = Some ''S_IFDIR'')"
proof (cases rule: read_result_cases [of e "device w" path])
  case fail
  then show ?thesis by (simp add: ReadDirectory_fail)
next
  case (ok raw)
  let ?w1 = "w\<lparr>device := snd (afc_read_directory e (device w) path),
               trace := trace w @ [Afc_read_directory path]\<rparr>"
  let ?f = "ListingFilter_of filters"
  from assms(2) NoFilter_kindMask have nf: "filters \<noteq> QDir_NoFilter" by auto
  have d1: "device ?w1 = device w"
    using assms(1) by (simp add: stable_device_def)
  have eq: "ReadDirectory e path filters w = listDirectory_policy e path ?f raw [] ?w1"
    by (simp only: ReadDirectory_ok [OF ok] loop_eq_policy [OF nf])
  have res: "fst (ReadDirectory e path filters w) =
      filter (\<lambda>name. queried ?f name \<and>
                classify (file_info e (device w) (path @ ''/'' @ name) ''st_ifmt'') \<in> kindMask ?f) raw"
    unfolding eq policy_result_stable [OF assms(1)] d1 by simp
  have dev: "device (snd (ReadDirectory e path filters w)) = device w"
    unfolding eq policy_device_stable [OF assms(1)] d1 ..
  have raw: "fst (ReadDirectory e path QDir_NoFilter w) = raw"
    by (simp add: ReadDirectory_ok [OF ok] loop_NoFilter)
  have "subseq (fst (ReadDirectory e path filters w)) (fst (ReadDirectory e path QDir_NoFilter w))"
    unfolding raw res by (rule subseq_filter_left)
  moreover have "\<forall>name \<in> set (fst (ReadDirectory e path filters w)).
            fst (GetFileInfo e (path @ ''/'' @ name) ''st_ifmt''
                   (snd (ReadDirectory e path filters w))) = Some ''S_IFDIR''"
  proof
    fix name assume "name \<in> set (fst (ReadDirectory e path filters w))"
    then have "classify (file_info e (device w) (path @ ''/'' @ name) ''st_ifmt'') = Directory"
      unfolding res assms(2) by simp
    then show "fst (GetFileInfo e (path @ ''/'' @ name) ''st_ifmt''
                   (snd (ReadDirectory e path filters w))) = Some ''S_IFDIR''"
      by (simp add: GetFileInfo_eq dev classify_Directory)
  qed
  ultimately show ?thesis ..
qed

theorem ReadDirectory_directories_only_witness:
  "stable_device ipod \<and>
   kindMask (ListingFilter_of (QDir_Dirs OR QDir_NoSymLinks)) = {Directory} \<and>
   fst (ReadDirectory ipod ''/Music'' (QDir_Dirs OR QDir_NoSymLinks) (start ())) = [''sub''] \<and>
   subseq [''sub''] (fst (ReadDirectory ipod ''/Music'' QDir_NoFilter (start ()))) \<and>
   fst (GetFileInfo ipod ''/Music/sub'' ''st_ifmt''
          (snd (ReadDirectory ipod ''/Music'' (QDir_Dirs OR QDir_NoSymLinks) (start ())))) =
     Some ''S_IFDIR''"
proof -
  have h1: "stable_device ipod"
    by (rule stable_device_ipod)
  have h2: "kindMask (ListingFilter_of (QDir_Dirs OR QDir_NoSymLinks)) = {Directory}"
    by (simp add: kindMask_Directory_iff has_flag_def QDir_Dirs_def QDir_Files_def
          QDir_NoSymLinks_def)
  note c = ReadDirectory_directories_only [OF h1 h2, where path = "''/Music''" and w = "start ()"]
  have r: "fst (ReadDirectory ipod ''/Music'' (QDir_Dirs OR QDir_NoSymLinks) (start ())) = [''sub'']"
    by (simp add: example_defs)
  from c have "subseq (fst (ReadDirectory ipod ''/Music'' (QDir_Dirs OR QDir_NoSymLinks) (start ())))
      (fst (ReadDirectory ipod ''/Music'' QDir_NoFilter (start ())))"
    by (rule conjunct1)
  then have s: "subseq [''sub''] (fst (ReadDirectory ipod ''/Music'' QDir_NoFilter (start ())))"
    by (simp only: r)
  from c have "\<forall>name \<in> set (fst (ReadDirectory ipod ''/Music'' (QDir_Dirs OR QDir_NoSymLinks) (start ()))).
      fst (GetFileInfo ipod (''/Music'' @ ''/'' @ name) ''st_ifmt''
            (snd (ReadDirectory ipod ''/Music'' (QDir_Dirs OR QDir_NoSymLinks) (start ())))) =
        Some ''S_IFDIR''"
    by (rule conjunct2)
  then have "\<forall>name \<in> set [''sub''].
      fst (GetFileInfo ipod (''/Music'' @ ''/'' @ name) ''st_ifmt''
            (snd (ReadDirectory ipod ''/Music'' (QDir_Dirs OR QDir_NoSymLinks) (start ())))) =
        Some ''S_IFDIR''"
    by (simp only: r)
  then have g: "fst (GetFileInfo ipod ''/Music/sub'' ''st_ifmt''
          (snd (ReadDirectory ipod ''/Music'' (QDir_Dirs OR QDir_NoSymLinks) (start ())))) =
     Some ''S_IFDIR''"
    by simp
  show ?thesis
    by (intro conjI h1 h2 r s g)
qed

text \<open>
  C8: when the reply to the file-type query of an entry is an error, a null list or a
  list without a value for \<^verbatim>\<open>st_ifmt\<close>, \<^verbatim>\<open>GetFileInfo\<close> returns the null string, a value
  and not a failure, and its kind is \<open>Unknown\<close>. With any filter other than
  \<^verbatim>\<open>QDir::NoFilter\<close>, \<^verbatim>\<open>ReadDirectory\<close> does not return a name whose query has no file
  type: in every state of the device, or in the state of the call when the device is
  stable.
\<close>

theorem missing_file_type_is_skipped:
  "(no_file_type (fst (afc_get_file_info e (device w) p)) \<longrightarrow>
      fst (GetFileInfo e p ''st_ifmt'' w) = None \<and>
      classify (fst (GetFileInfo e p ''st_ifmt'' w)) = Unknown) \<and>
   (filters \<noteq> QDir_NoFilter \<and>
    (\<forall>d. no_file_type (fst (afc_get_file_info e d (path @ ''/'' @ name)))) \<longrightarrow>
      name \<notin> set (fst (ReadDirectory e path filters w))) \<and>
   (filters \<noteq> QDir_NoFilter \<and> stable_device e \<and>
    no_file_type (fst (afc_get_file_info e (device w) (path @ ''/'' @ name))) \<longrightarrow>
      name \<notin> set (fst (ReadDirectory e path filters w)))"
proof (intro conjI impI)
  assume "no_file_type (fst (afc_get_file_info e (device w) p))"
  then have "file_info e (device w) p ''st_ifmt'' = None"
    by (simp only: file_info_no_file_type)
  then show "fst (GetFileInfo e p ''st_ifmt'' w) = None"
    and "classify (fst (GetFileInfo e p ''st_ifmt'' w)) = Unknown"
    by (simp_all add: GetFileInfo_eq classify_None)
next
  assume a: "filters \<noteq> QDir_NoFilter \<and>
    (\<forall>d. no_file_type (fst (afc_get_file_info e d (path @ ''/'' @ name))))"
  then have nf: "filters \<noteq> QDir_NoFilter"
    by (rule conjunct1)
  from a have none: "file_info e d (path @ ''/'' @ name) ''st_ifmt'' = None" for d
    by (simp add: file_info_no_file_type)
  show "name \<notin> set (fst (ReadDirectory e path filters w))"
  proof (cases rule: read_result_cases [of e "device w" path])
    case fail
    then show ?thesis by (simp add: ReadDirectory_fail)
  next
    case (ok raw)
    show ?thesis
    proof
      assume "name \<in> set (fst (ReadDirectory e path filters w))"
      then have "name \<in> set [] \<or>
          (\<exists>d. classify (file_info e d (path @ ''/'' @ name) ''st_ifmt'')
                  \<in> kindMask (ListingFilter_of filters))"
        unfolding ReadDirectory_ok [OF ok] loop_eq_policy [OF nf] by (rule policy_excludes)
      then obtain d where "classify (file_info e d (path @ ''/'' @ name) ''st_ifmt'')
                  \<in> kindMask (ListingFilter_of filters)"
        by auto
      then show False
        unfolding none classify_None using Unknown_not_in_kindMask by blast
    qed
  qed
next
  assume a: "filters \<noteq> QDir_NoFilter \<and> stable_device e \<and>
    no_file_type (fst (afc_get_file_info e (device w) (path @ ''/'' @ name)))"
  then have nf: "filters \<noteq> QDir_NoFilter" and st: "stable_device e"
    and none: "file_info e (device w) (path @ ''/'' @ name) ''st_ifmt'' = None"
    by (simp_all add: file_info_no_file_type)
  show "name \<notin> set (fst (ReadDirectory e path filters w))"
  proof (cases rule: read_result_cases [of e "device w" path])
    case fail
    then show ?thesis by (simp add: ReadDirectory_fail)
  next
    case (ok raw)
    have d1: "snd (afc_read_directory e (device w) path) = device w"
      using st by (simp add: stable_device_def)
    have "classify (file_info e (device w) (path @ ''/'' @ name) ''st_ifmt'')
            \<notin> kindMask (ListingFilter_of filters)"
      unfolding none classify_None by (rule Unknown_not_in_kindMask)
    then show ?thesis
      unfolding ReadDirectory_ok [OF ok] loop_eq_policy [OF nf] policy_result_stable [OF st]
      by (simp add: d1)
  qed
qed

theorem missing_file_type_is_skipped_witness:
  "no_file_type (fst (afc_get_file_info ipod (device (start ())) ''/Music/gone'')) \<and>
   fst (GetFileInfo ipod ''/Music/gone'' ''st_ifmt'' (start ())) = None \<and>
   classify (fst (GetFileInfo ipod ''/Music/gone'' ''st_ifmt'' (start ()))) = Unknown \<and>
   QDir_Files \<noteq> QDir_NoFilter \<and>
   (\<forall>d. no_file_type (fst (afc_get_file_info ipod d (''/Music'' @ ''/'' @ ''gone'')))) \<and>
   stable_device ipod \<and>
   no_file_type (fst (afc_get_file_info ipod (device (start ())) (''/Music'' @ ''/'' @ ''gone''))) \<and>
   ''gone'' \<notin> set (fst (ReadDirectory ipod ''/Music'' QDir_Files (start ())))"
proof -
  have a: "no_file_type (fst (afc_get_file_info ipod (device (start ())) ''/Music/gone''))"
    by (simp add: no_file_type_def ipod_def ipod_files_def start_def AFC_E_SUCCESS_def)
  have b: "QDir_Files \<noteq> QDir_NoFilter"
    by (simp add: QDir_Files_def QDir_NoFilter_def)
  have c: "\<forall>d. no_file_type (fst (afc_get_file_info ipod d (''/Music'' @ ''/'' @ ''gone'')))"
    by (simp add: no_file_type_def ipod_def ipod_files_def AFC_E_SUCCESS_def)
  have d: "no_file_type (fst (afc_get_file_info ipod (device (start ())) (''/Music'' @ ''/'' @ ''gone'')))"
    using c by (rule spec)
  note t = missing_file_type_is_skipped
    [where e = ipod and w = "start ()" and p = "''/Music/gone''" and filters = QDir_Files
       and path = "''/Music''" and name = "''gone''"]
  from t have "no_file_type (fst (afc_get_file_info ipod (device (start ())) ''/Music/gone'')) \<longrightarrow>
      fst (GetFileInfo ipod ''/Music/gone'' ''st_ifmt'' (start ())) = None \<and>
      classify (fst (GetFileInfo ipod ''/Music/gone'' ''st_ifmt'' (start ()))) = Unknown"
    by (rule conjunct1)
  then have r1: "fst (GetFileInfo ipod ''/Music/gone'' ''st_ifmt'' (start ())) = None \<and>
      classify (fst (GetFileInfo ipod ''/Music/gone'' ''st_ifmt'' (start ()))) = Unknown"
    using a by (rule mp)
  from b c have bc: "QDir_Files \<noteq> QDir_NoFilter \<and>
      (\<forall>d. no_file_type (fst (afc_get_file_info ipod d (''/Music'' @ ''/'' @ ''gone''))))" ..
  from t have "QDir_Files \<noteq> QDir_NoFilter \<and>
      (\<forall>d. no_file_type (fst (afc_get_file_info ipod d (''/Music'' @ ''/'' @ ''gone'')))) \<longrightarrow>
      ''gone'' \<notin> set (fst (ReadDirectory ipod ''/Music'' QDir_Files (start ())))"
    by (rule conjunct2 [THEN conjunct1])
  then have r2: "''gone'' \<notin> set (fst (ReadDirectory ipod ''/Music'' QDir_Files (start ())))"
    using bc by (rule mp)
  show ?thesis
    by (intro conjI a r1 [THEN conjunct1] r1 [THEN conjunct2] b c stable_device_ipod d r2)
qed

subsection \<open>Exists\<close>

text \<open>
  C9: \<^verbatim>\<open>Exists\<close> of a path is true exactly when \<^verbatim>\<open>afc_get_file_info\<close> succeeds for it with
  a list that contains a value for the key \<^verbatim>\<open>st_ifmt\<close>; a path whose query succeeds with
  a list that has no such value is reported absent.
\<close>

theorem Exists_iff_st_ifmt_value:
  "(fst (Exists e path w) \<longleftrightarrow>
      fst (fst (afc_get_file_info e (device w) path)) = AFC_E_SUCCESS \<and>
      (\<exists>infolist. snd (fst (afc_get_file_info e (device w) path)) = Some infolist \<and>
                  has_value ''st_ifmt'' infolist)) \<and>
   (fst (afc_get_file_info e (device w) path) = (AFC_E_SUCCESS, Some infolist) \<and>
    \<not> has_value ''st_ifmt'' infolist \<longrightarrow> \<not> fst (Exists e path w))"
  by (auto simp: Exists_eq file_info_None)

theorem Exists_iff_st_ifmt_value_witness:
  "fst (Exists ipod ''/iTunes_Control/Music/F00'' (start ())) \<and>
   fst (afc_get_file_info ipod (device (start ())) ''/Music/odd'') =
     (AFC_E_SUCCESS, Some [''st_size'', ''3'', ''st_ifmt'']) \<and>
   \<not> has_value ''st_ifmt'' [''st_size'', ''3'', ''st_ifmt''] \<and>
   \<not> fst (Exists ipod ''/Music/odd'' (start ()))"
proof -
  have p: "fst (fst (afc_get_file_info ipod (device (start ())) ''/iTunes_Control/Music/F00'')) =
        AFC_E_SUCCESS \<and>
      (\<exists>infolist.
         snd (fst (afc_get_file_info ipod (device (start ())) ''/iTunes_Control/Music/F00'')) =
           Some infolist \<and> has_value ''st_ifmt'' infolist)"
    by (simp add: ipod_def ipod_files_def start_def AFC_E_SUCCESS_def)
  note t1 = Exists_iff_st_ifmt_value
    [where e = ipod and w = "start ()" and path = "''/iTunes_Control/Music/F00''"
       and infolist = "[]"]
  from t1 [THEN conjunct1] p have r1: "fst (Exists ipod ''/iTunes_Control/Music/F00'' (start ()))"
    by (rule iffD2)
  have h: "fst (afc_get_file_info ipod (device (start ())) ''/Music/odd'') =
     (AFC_E_SUCCESS, Some [''st_size'', ''3'', ''st_ifmt''])"
    by (simp add: ipod_def ipod_files_def start_def AFC_E_SUCCESS_def)
  have n: "\<not> has_value ''st_ifmt'' [''st_size'', ''3'', ''st_ifmt'']"
    by simp
  from h n have hn: "fst (afc_get_file_info ipod (device (start ())) ''/Music/odd'') =
     (AFC_E_SUCCESS, Some [''st_size'', ''3'', ''st_ifmt'']) \<and>
     \<not> has_value ''st_ifmt'' [''st_size'', ''3'', ''st_ifmt'']" ..
  note t2 = Exists_iff_st_ifmt_value
    [where e = ipod and w = "start ()" and path = "''/Music/odd''"
       and infolist = "[''st_size'', ''3'', ''st_ifmt'']"]
  from t2 [THEN conjunct2] hn have r2: "\<not> fst (Exists ipod ''/Music/odd'' (start ()))"
    by (rule mp)
  show ?thesis
    by (intro conjI r1 h n r2)
qed

subsection \<open>GetUnusedFilename\<close>

text \<open>
  C5: when \<^verbatim>\<open>Exists\<close> is false for \<^verbatim>\<open>/iTunes_Control/Music/F00\<close>, \<^verbatim>\<open>GetUnusedFilename\<close>
  returns the null string after the warning that no music directory was found. The one
  query of \<^verbatim>\<open>F00\<close> and the warning are all it does: no call of \<^verbatim>\<open>qrand()\<close> and no query
  of a candidate name.
\<close>

theorem GetUnusedFilename_no_buckets:
  assumes "\<not> fst (Exists e ''/iTunes_Control/Music/F00'' w)"
  shows "GetUnusedFilename e metadata w =
     Some (None,
       w\<lparr>device := snd (afc_get_file_info e (device w) ''/iTunes_Control/Music/F00''),
          trace := trace w @
            [Afc_get_file_info ''/iTunes_Control/Music/F00'', QWarning_no_music_directories]\<rparr>)"
proof -
  from assms have "file_info e (device w) (music_dir 0) ''st_ifmt'' = None"
    by (simp add: Exists_eq music_dir_0)
  from count_musicdirs_none [OF this]
  have "GetUnusedFilename e metadata w =
      Some (None, qWarning QWarning_no_music_directories
        (w\<lparr>device := snd (afc_get_file_info e (device w) (music_dir 0)),
           trace := trace w @ [Afc_get_file_info (music_dir 0)]\<rparr>))"
    by (rule GetUnusedFilename_no_dirs) simp
  then show ?thesis
    by (simp add: qWarning_def music_dir_0)
qed

theorem GetUnusedFilename_no_buckets_witness:
  "\<not> fst (Exists flaky_ipod ''/iTunes_Control/Music/F00'' (start 1)) \<and>
   GetUnusedFilename flaky_ipod \<lparr>Song_filename = ''a.mp3''\<rparr> (start 1) =
     Some (None,
       \<lparr>device = 2, nrand = 0,
        trace = [Afc_get_file_info ''/iTunes_Control/Music/F00'', QWarning_no_music_directories]\<rparr>)"
proof -
  have h: "\<not> fst (Exists flaky_ipod ''/iTunes_Control/Music/F00'' (start 1))"
    by (simp add: Exists_eq file_info_def flaky_ipod_def start_def AFC_E_SUCCESS_def)
  from GetUnusedFilename_no_buckets [OF h, of "\<lparr>Song_filename = ''a.mp3''\<rparr>"]
  have "GetUnusedFilename flaky_ipod \<lparr>Song_filename = ''a.mp3''\<rparr> (start 1) =
     Some (None,
       \<lparr>device = 2, nrand = 0,
        trace = [Afc_get_file_info ''/iTunes_Control/Music/F00'', QWarning_no_music_directories]\<rparr>)"
    by (simp add: flaky_ipod_def start_def)
  with h show ?thesis ..
qed

text \<open>
  C6, as amended: after the count \<open>total_musicdirs > 0\<close> of the music directories,
  \<^verbatim>\<open>GetUnusedFilename\<close> takes the directory number \<^verbatim>\<open>qrand() % total_musicdirs\<close>, which
  lies in \<open>[0, total_musicdirs)\<close>, asks \<^verbatim>\<open>Exists\<close> for that directory again, and returns
  the null string, after the warning that the directory does not exist, exactly when
  this second check reports the directory absent. Over the values \<open>0..rand_max\<close> of
  \<^verbatim>\<open>qrand()\<close> the weights of two directory numbers differ by at most one, and they are
  all equal exactly when \<open>total_musicdirs\<close> divides \<open>rand_max + 1\<close>.
\<close>

theorem GetUnusedFilename_bucket_recheck:
  assumes "count_musicdirs e 0 w = Some (total_musicdirs, w1)" and "0 < total_musicdirs"
  shows "0 \<le> pick_dir_num (fst (qrand e w1)) total_musicdirs \<and>
         pick_dir_num (fst (qrand e w1)) total_musicdirs < total_musicdirs \<and>
         ((\<exists>w'. GetUnusedFilename e metadata w = Some (None, w')) \<longleftrightarrow>
            \<not> fst (Exists e (music_dir (pick_dir_num (fst (qrand e w1)) total_musicdirs))
                    (snd (qrand e w1)))) \<and>
         (\<not> fst (Exists e (music_dir (pick_dir_num (fst (qrand e w1)) total_musicdirs))
                    (snd (qrand e w1))) \<longrightarrow>
            GetUnusedFilename e metadata w =
              Some (None,
                qWarning (QWarning_music_directory_missing
                            (music_dir (pick_dir_num (fst (qrand e w1)) total_musicdirs)))
                  (snd (Exists e (music_dir (pick_dir_num (fst (qrand e w1)) total_musicdirs))
                          (snd (qrand e w1)))))) \<and>
         (\<forall>k k'. 0 \<le> k \<and> k < total_musicdirs \<and> 0 \<le> k' \<and> k' < total_musicdirs \<longrightarrow>
            dir_num_weight rand_max total_musicdirs k
              \<le> dir_num_weight rand_max total_musicdirs k' + 1) \<and>
         ((\<forall>k k'. 0 \<le> k \<and> k < total_musicdirs \<and> 0 \<le> k' \<and> k' < total_musicdirs \<longrightarrow>
            dir_num_weight rand_max total_musicdirs k = dir_num_weight rand_max total_musicdirs k')
          \<longleftrightarrow> nat total_musicdirs dvd Suc rand_max)"
proof -
  define dir where "dir = music_dir (pick_dir_num (int (rand e (nrand w1))) total_musicdirs)"
  have range: "0 \<le> pick_dir_num (fst (qrand e w1)) total_musicdirs \<and>
         pick_dir_num (fst (qrand e w1)) total_musicdirs < total_musicdirs"
    using assms(2) by (simp add: pick_dir_num_def)
  have ex: "fst (Exists e (music_dir (pick_dir_num (fst (qrand e w1)) total_musicdirs))
                    (snd (qrand e w1))) \<longleftrightarrow> file_info e (device w1) dir ''st_ifmt'' \<noteq> None"
    by (simp add: qrand_eq Exists_eq dir_def)
  have vanished: "GetUnusedFilename e metadata w =
              Some (None,
                qWarning (QWarning_music_directory_missing
                            (music_dir (pick_dir_num (fst (qrand e w1)) total_musicdirs)))
                  (snd (Exists e (music_dir (pick_dir_num (fst (qrand e w1)) total_musicdirs))
                          (snd (qrand e w1)))))"
    if "file_info e (device w1) dir ''st_ifmt'' = None"
    using GetUnusedFilename_vanished [OF assms that [unfolded dir_def], of metadata]
    by (simp add: qrand_eq Exists_eq qWarning_def)
  have found: "GetUnusedFilename e metadata w \<noteq> Some (None, w')"
    if "file_info e (device w1) dir ''st_ifmt'' = Some t" for t w'
    using GetUnusedFilename_bucket [OF assms that [unfolded dir_def], of metadata]
    by (simp split: option.splits prod.splits)
  have iff: "(\<exists>w'. GetUnusedFilename e metadata w = Some (None, w')) \<longleftrightarrow>
            file_info e (device w1) dir ''st_ifmt'' = None"
  proof (cases "file_info e (device w1) dir ''st_ifmt''")
    case None
    with vanished show ?thesis by simp
  next
    case (Some t)
    with found show ?thesis by simp
  qed
  have near: "\<forall>k k'. 0 \<le> k \<and> k < total_musicdirs \<and> 0 \<le> k' \<and> k' < total_musicdirs \<longrightarrow>
            dir_num_weight rand_max total_musicdirs k
              \<le> dir_num_weight rand_max total_musicdirs k' + 1"
    using assms(2) by (intro allI impI dir_num_weight_near) simp_all
  note uniform = dir_num_weight_uniform_iff [OF assms(2), of rand_max]
  have a: "(\<exists>w'. GetUnusedFilename e metadata w = Some (None, w')) \<longleftrightarrow>
            \<not> fst (Exists e (music_dir (pick_dir_num (fst (qrand e w1)) total_musicdirs))
                    (snd (qrand e w1)))"
    unfolding ex using iff by simp
  have b: "\<not> fst (Exists e (music_dir (pick_dir_num (fst (qrand e w1)) total_musicdirs))
                    (snd (qrand e w1))) \<longrightarrow>
            GetUnusedFilename e metadata w =
              Some (None,
                qWarning (QWarning_music_directory_missing
                            (music_dir (pick_dir_num (fst (qrand e w1)) total_musicdirs)))
                  (snd (Exists e (music_dir (pick_dir_num (fst (qrand e w1)) total_musicdirs))
                          (snd (qrand e w1)))))"
    unfolding ex
  proof
    assume "\<not> file_info e (device w1) dir ''st_ifmt'' \<noteq> None"
    then have "file_info e (device w1) dir ''st_ifmt'' = None" by simp
    then show "GetUnusedFilename e metadata w =
              Some (None,
                qWarning (QWarning_music_directory_missing
                            (music_dir (pick_dir_num (fst (qrand e w1)) total_musicdirs)))
                  (snd (Exists e (music_dir (pick_dir_num (fst (qrand e w1)) total_musicdirs))
                          (snd (qrand e w1)))))"
      by (rule vanished)
  qed
  from range have r1: "0 \<le> pick_dir_num (fst (qrand e w1)) total_musicdirs"
    and r2: "pick_dir_num (fst (qrand e w1)) total_musicdirs < total_musicdirs"
    by simp_all
  show ?thesis
    by (intro conjI) (rule r1 r2 a b near uniform)+
qed

theorem GetUnusedFilename_bucket_recheck_witness:
  "count_musicdirs flaky_ipod 0 (start 0) =
     Some (1, \<lparr>device = 2, nrand = 0,
               trace = [Afc_get_file_info ''/iTunes_Control/Music/F00'',
                        Afc_get_file_info ''/iTunes_Control/Music/F01'']\<rparr>) \<and>
   (0::int) < 1 \<and>
   \<not> fst (Exists flaky_ipod ''/iTunes_Control/Music/F00''
            \<lparr>device = 2, nrand = 1,
             trace = [Afc_get_file_info ''/iTunes_Control/Music/F00'',
                      Afc_get_file_info ''/iTunes_Control/Music/F01'', QRand]\<rparr>) \<and>
   GetUnusedFilename flaky_ipod \<lparr>Song_filename = ''a.mp3''\<rparr> (start 0) =
     Some (None,
       \<lparr>device = 3, nrand = 1,
        trace = [Afc_get_file_info ''/iTunes_Control/Music/F00'',
                 Afc_get_file_info ''/iTunes_Control/Music/F01'', QRand,
                 Afc_get_file_info ''/iTunes_Control/Music/F00'',
                 QWarning_music_directory_missing ''/iTunes_Control/Music/F00'']\<rparr>)"
proof -
  let ?w1 = "\<lparr>device = 2, nrand = 0,
               trace = [Afc_get_file_info ''/iTunes_Control/Music/F00'',
                        Afc_get_file_info ''/iTunes_Control/Music/F01'']\<rparr> :: nat world"
  have h1: "count_musicdirs flaky_ipod 0 (start 0) = Some (1, ?w1)"
    by (simp add: example_defs)
  have h2: "(0::int) < 1"
    by simp
  have x: "\<not> fst (Exists flaky_ipod ''/iTunes_Control/Music/F00''
            \<lparr>device = 2, nrand = 1,
             trace = [Afc_get_file_info ''/iTunes_Control/Music/F00'',
                      Afc_get_file_info ''/iTunes_Control/Music/F01'', QRand]\<rparr>)"
    by (simp add: Exists_eq file_info_def flaky_ipod_def AFC_E_SUCCESS_def)
  then have x': "\<not> fst (Exists flaky_ipod (music_dir (pick_dir_num (fst (qrand flaky_ipod ?w1)) 1))
                    (snd (qrand flaky_ipod ?w1)))"
    by (simp add: qrand_def pick_dir_num_def music_dir_0)
  note c = GetUnusedFilename_bucket_recheck
    [OF h1 h2, where metadata = "\<lparr>Song_filename = ''a.mp3''\<rparr>" and rand_max = RAND_MAX]
  from c have "\<not> fst (Exists flaky_ipod (music_dir (pick_dir_num (fst (qrand flaky_ipod ?w1)) 1))
                    (snd (qrand flaky_ipod ?w1))) \<longrightarrow>
            GetUnusedFilename flaky_ipod \<lparr>Song_filename = ''a.mp3''\<rparr> (start 0) =
              Some (None,
                qWarning (QWarning_music_directory_missing
                            (music_dir (pick_dir_num (fst (qrand flaky_ipod ?w1)) 1)))
                  (snd (Exists flaky_ipod (music_dir (pick_dir_num (fst (qrand flaky_ipod ?w1)) 1))
                          (snd (qrand flaky_ipod ?w1)))))"
    by (rule conjunct2 [THEN conjunct2, THEN conjunct2, THEN conjunct1])
  then have "GetUnusedFilename flaky_ipod \<lparr>Song_filename = ''a.mp3''\<rparr> (start 0) =
              Some (None,
                qWarning (QWarning_music_directory_missing
                            (music_dir (pick_dir_num (fst (qrand flaky_ipod ?w1)) 1)))
                  (snd (Exists flaky_ipod (music_dir (pick_dir_num (fst (qrand flaky_ipod ?w1)) 1))
                          (snd (qrand flaky_ipod ?w1)))))"
    using x' by (rule mp)
  then have r: "GetUnusedFilename flaky_ipod \<lparr>Song_filename = ''a.mp3''\<rparr> (start 0) =
     Some (None,
       \<lparr>device = 3, nrand = 1,
        trace = [Afc_get_file_info ''/iTunes_Control/Music/F00'',
                 Afc_get_file_info ''/iTunes_Control/Music/F01'', QRand,
                 Afc_get_file_info ''/iTunes_Control/Music/F00'',
                 QWarning_music_directory_missing ''/iTunes_Control/Music/F00'']\<rparr>)"
    by (simp add: qrand_def pick_dir_num_def music_dir_0 Exists_eq qWarning_def flaky_ipod_def)
  show ?thesis
    by (intro conjI h1 h2 x r)
qed

text \<open>
  The claim C6 as it is written says that the directory number is chosen uniformly. With
  the three music directories of the example and glibc's \<^verbatim>\<open>RAND_MAX\<close>, the numbers 0 and 1
  are each selected by 715827883 values of \<^verbatim>\<open>qrand()\<close> and the number 2 by 715827882.
\<close>

theorem dir_num_not_uniform:
  "map_option fst (count_musicdirs three_buckets 0 (start ())) = Some 3 \<and>
   dir_num_weight RAND_MAX 3 0 = 715827883 \<and>
   dir_num_weight RAND_MAX 3 2 = 715827882 \<and>
   dir_num_weight RAND_MAX 3 0 \<noteq> dir_num_weight RAND_MAX 3 2"
proof -
  have "map_option fst (count_musicdirs three_buckets 0 (start ())) = Some 3"
    by (simp add: example_defs)
  moreover have a: "dir_num_weight RAND_MAX 3 0 = 715827883"
    by (simp add: dir_num_weight_eq RAND_MAX_def)
  moreover have b: "dir_num_weight RAND_MAX 3 2 = 715827882"
    by (simp add: dir_num_weight_eq RAND_MAX_def)
  moreover have "dir_num_weight RAND_MAX 3 0 \<noteq> dir_num_weight RAND_MAX 3 2"
    unfolding a b by simp
  ultimately show ?thesis by (intro conjI)
qed

text \<open>
  C1: on a channel whose state does not change, a path that \<^verbatim>\<open>GetUnusedFilename\<close> returns
  is one for which \<^verbatim>\<open>Exists\<close>, asked in the world of the return, is false.
\<close>

theorem GetUnusedFilename_returns_absent_path:
  assumes "stable_device e" and "GetUnusedFilename e metadata w = Some (Some path, w')"
  shows "\<not> fst (Exists e path w')"
proof -
  from assms(2) obtain N w1 w3 filename where
    "count_musicdirs e 0 w = Some (N, w1)" and "0 < N"
    and loop: "unused_filename_loop e (music_dir (pick_dir_num (int (rand e (nrand w1))) N))
           (file_extension metadata) w3 = Some (filename, w')"
    and path: "path = music_dir (pick_dir_num (int (rand e (nrand w1))) N) @ ''/'' @ filename"
    by (rule GetUnusedFilename_pathE)
  define dir where "dir = music_dir (pick_dir_num (int (rand e (nrand w1))) N)"
  from unused_filename_loop_post [OF loop] assms(1)
  have "device w' = device w3"
    and "file_info e (device w3) (dir @ ''/'' @ filename) ''st_ifmt'' = None"
    by (simp_all add: unused_filename_post_def dir_def)
  then have "file_info e (device w') path ''st_ifmt'' = None"
    by (simp only: path dir_def)
  then show ?thesis
    by (simp add: Exists_eq)
qed

theorem GetUnusedFilename_returns_absent_path_witness:
  "stable_device ipod \<and>
   GetUnusedFilename ipod \<lparr>Song_filename = ''/home/x/Song.MP3''\<rparr> (start ()) =
     Some (Some ''/iTunes_Control/Music/F00/libgpod000009.mp3'',
       \<lparr>device = (), nrand = 3,
        trace = [Afc_get_file_info ''/iTunes_Control/Music/F00'',
                 Afc_get_file_info ''/iTunes_Control/Music/F01'', QRand,
                 Afc_get_file_info ''/iTunes_Control/Music/F00'', QRand,
                 Afc_get_file_info ''/iTunes_Control/Music/F00/libgpod000008.mp3'', QRand,
                 Afc_get_file_info ''/iTunes_Control/Music/F00/libgpod000009.mp3'']\<rparr>) \<and>
   \<not> fst (Exists ipod ''/iTunes_Control/Music/F00/libgpod000009.mp3''
       \<lparr>device = (), nrand = 3,
        trace = [Afc_get_file_info ''/iTunes_Control/Music/F00'',
                 Afc_get_file_info ''/iTunes_Control/Music/F01'', QRand,
                 Afc_get_file_info ''/iTunes_Control/Music/F00'', QRand,
                 Afc_get_file_info ''/iTunes_Control/Music/F00/libgpod000008.mp3'', QRand,
                 Afc_get_file_info ''/iTunes_Control/Music/F00/libgpod000009.mp3'']\<rparr>)"
proof -
  have h1: "stable_device ipod"
    by (rule stable_device_ipod)
  have h2: "GetUnusedFilename ipod \<lparr>Song_filename = ''/home/x/Song.MP3''\<rparr> (start ()) =
     Some (Some ''/iTunes_Control/Music/F00/libgpod000009.mp3'',
       \<lparr>device = (), nrand = 3,
        trace = [Afc_get_file_info ''/iTunes_Control/Music/F00'',
                 Afc_get_file_info ''/iTunes_Control/Music/F01'', QRand,
                 Afc_get_file_info ''/iTunes_Control/Music/F00'', QRand,
                 Afc_get_file_info ''/iTunes_Control/Music/F00/libgpod000008.mp3'', QRand,
                 Afc_get_file_info ''/iTunes_Control/Music/F00/libgpod000009.mp3'']\<rparr>)"
    by (simp add: example_defs)
  note c = GetUnusedFilename_returns_absent_path [OF h1 h2]
  show ?thesis
    by (intro conjI h1 h2 c)
qed

text \<open>
  C7: the extension of a path that \<^verbatim>\<open>GetUnusedFilename\<close> returns, its last section
  separated by \<^verbatim>\<open>.\<close>, is the lower-cased last section of the file name of the song when
  that is not empty, and \<^verbatim>\<open>mp3\<close> when it is empty; the path is a music directory, \<^verbatim>\<open>/\<close>,
  \<^verbatim>\<open>libgpod\<close>, a formatted number, \<^verbatim>\<open>.\<close> and this extension.
\<close>

theorem GetUnusedFilename_extension:
  assumes "GetUnusedFilename e metadata w = Some (Some path, w')"
  shows "section_last (CHR ''.'') path =
           (if toLower (section_last (CHR ''.'') (Song_filename metadata)) = [] then ''mp3''
            else toLower (section_last (CHR ''.'') (Song_filename metadata))) \<and>
         (\<exists>dir_num n. path = music_dir dir_num @ ''/'' @ ''libgpod'' @ sprintf_0d 6 n @ ''.'' @
                                section_last (CHR ''.'') path)"
proof -
  from assms obtain N w1 w3 filename where
    "count_musicdirs e 0 w = Some (N, w1)" and "0 < N"
    and loop: "unused_filename_loop e (music_dir (pick_dir_num (int (rand e (nrand w1))) N))
           (file_extension metadata) w3 = Some (filename, w')"
    and path: "path = music_dir (pick_dir_num (int (rand e (nrand w1))) N) @ ''/'' @ filename"
    by (rule GetUnusedFilename_pathE)
  from unused_filename_loop_post [OF loop]
  have "\<exists>n. fst (filename, w') = ''libgpod'' @ sprintf_0d 6 n @ ''.'' @ file_extension metadata"
    unfolding unused_filename_post_def by (rule conjunct1)
  then obtain n where
    "filename = ''libgpod'' @ sprintf_0d 6 n @ ''.'' @ file_extension metadata"
    unfolding fst_conv ..
  with path have p:
    "path = music_dir (pick_dir_num (int (rand e (nrand w1))) N) @ ''/'' @ ''libgpod'' @
            sprintf_0d 6 n @ ''.'' @ file_extension metadata"
    by simp
  then have "path = (music_dir (pick_dir_num (int (rand e (nrand w1))) N) @ ''/'' @ ''libgpod'' @
            sprintf_0d 6 n) @ CHR ''.'' # file_extension metadata"
    by simp
  then have ext: "section_last (CHR ''.'') path = file_extension metadata"
    by (simp only: section_last_append [OF file_extension_no_dot])
  have "\<exists>dir_num n. path = music_dir dir_num @ ''/'' @ ''libgpod'' @ sprintf_0d 6 n @ ''.'' @
                                section_last (CHR ''.'') path"
    unfolding ext using p by blast
  moreover have "section_last (CHR ''.'') path =
           (if toLower (section_last (CHR ''.'') (Song_filename metadata)) = [] then ''mp3''
            else toLower (section_last (CHR ''.'') (Song_filename metadata)))"
    unfolding ext by (simp add: file_extension_def Let_def)
  ultimately show ?thesis by simp
qed

theorem GetUnusedFilename_extension_witness:
  "GetUnusedFilename ipod \<lparr>Song_filename = ''/home/x/Track.OGG''\<rparr> (start ()) =
     Some (Some ''/iTunes_Control/Music/F00/libgpod000008.ogg'',
       \<lparr>device = (), nrand = 2,
        trace = [Afc_get_file_info ''/iTunes_Control/Music/F00'',
                 Afc_get_file_info ''/iTunes_Control/Music/F01'', QRand,
                 Afc_get_file_info ''/iTunes_Control/Music/F00'', QRand,
                 Afc_get_file_info ''/iTunes_Control/Music/F00/libgpod000008.ogg'']\<rparr>) \<and>
   section_last (CHR ''.'') ''/iTunes_Control/Music/F00/libgpod000008.ogg'' = ''ogg'' \<and>
   GetUnusedFilename ipod \<lparr>Song_filename = ''/home/x/Track.''\<rparr> (start ()) =
     Some (Some ''/iTunes_Control/Music/F00/libgpod000009.mp3'',
       \<lparr>device = (), nrand = 3,
        trace = [Afc_get_file_info ''/iTunes_Control/Music/F00'',
                 Afc_get_file_info ''/iTunes_Control/Music/F01'', QRand,
                 Afc_get_file_info ''/iTunes_Control/Music/F00'', QRand,
                 Afc_get_file_info ''/iTunes_Control/Music/F00/libgpod000008.mp3'', QRand,
                 Afc_get_file_info ''/iTunes_Control/Music/F00/libgpod000009.mp3'']\<rparr>) \<and>
   section_last (CHR ''.'') ''/iTunes_Control/Music/F00/libgpod000009.mp3'' = ''mp3''"
proof -
  have h1: "GetUnusedFilename ipod \<lparr>Song_filename = ''/home/x/Track.OGG''\<rparr> (start ()) =
     Some (Some ''/iTunes_Control/Music/F00/libgpod000008.ogg'',
       \<lparr>device = (), nrand = 2,
        trace = [Afc_get_file_info ''/iTunes_Control/Music/F00'',
                 Afc_get_file_info ''/iTunes_Control/Music/F01'', QRand,
                 Afc_get_file_info ''/iTunes_Control/Music/F00'', QRand,
                 Afc_get_file_info ''/iTunes_Control/Music/F00/libgpod000008.ogg'']\<rparr>)"
    by (simp add: example_defs)
  have e1: "toLower (section_last (CHR ''.'') (Song_filename \<lparr>Song_filename = ''/home/x/Track.OGG''\<rparr>)) = ''ogg''"
    by (simp add: toLower_def char_toLower_def section_last_def)
  from GetUnusedFilename_extension [OF h1, THEN conjunct1]
  have r1: "section_last (CHR ''.'') ''/iTunes_Control/Music/F00/libgpod000008.ogg'' = ''ogg''"
    unfolding e1 by simp
  have h2: "GetUnusedFilename ipod \<lparr>Song_filename = ''/home/x/Track.''\<rparr> (start ()) =
     Some (Some ''/iTunes_Control/Music/F00/libgpod000009.mp3'',
       \<lparr>device = (), nrand = 3,
        trace = [Afc_get_file_info ''/iTunes_Control/Music/F00'',
                 Afc_get_file_info ''/iTunes_Control/Music/F01'', QRand,
                 Afc_get_file_info ''/iTunes_Control/Music/F00'', QRand,
                 Afc_get_file_info ''/iTunes_Control/Music/F00/libgpod000008.mp3'', QRand,
                 Afc_get_file_info ''/iTunes_Control/Music/F00/libgpod000009.mp3'']\<rparr>)"
    by (simp add: example_defs)
  have e2: "toLower (section_last (CHR ''.'') (Song_filename \<lparr>Song_filename = ''/home/x/Track.''\<rparr>)) = []"
    by (simp add: toLower_def section_last_def)
  from GetUnusedFilename_extension [OF h2, THEN conjunct1]
  have r2: "section_last (CHR ''.'') ''/iTunes_Control/Music/F00/libgpod000009.mp3'' = ''mp3''"
    unfolding e2 by simp
  show ?thesis
    by (intro conjI h1 r1 h2 r2)
qed

end
